theory Spec2Isabelle
  imports Complex_Main
begin

section \<open>Strings as the Python code reads them\<close>

text \<open>
  The analyser and the persona processor work on Python \<open>str\<close> values. They are
  modelled as HOL strings over ASCII: the character classes below are the ASCII part of
  \<open>str.isupper\<close>, \<open>str.islower\<close>, \<open>str.isdigit\<close>, \<open>str.isspace\<close> and of
  the regular-expression classes \<open>[A-Z]\<close>, \<open>\<bslash>d\<close>, \<open>\<bslash>w\<close>, \<open>\<bslash>s\<close>.
  Scores are Python floats in the source; they are modelled as exact real numbers, so
  the rounding of binary floating point is not part of the model.
\<close>

definition ascii_uppercase :: string where
  "ascii_uppercase = ''ABCDEFGHIJKLMNOPQRSTUVWXYZ''"

definition ascii_lowercase :: string where
  "ascii_lowercase = ''abcdefghijklmnopqrstuvwxyz''"

definition ascii_digits :: string where
  "ascii_digits = ''0123456789''"

definition is_upper :: "char \<Rightarrow> bool" where
  "is_upper c = (c \<in> set ascii_uppercase)"

definition is_lower :: "char \<Rightarrow> bool" where
  "is_lower c = (c \<in> set ascii_lowercase)"

definition is_digit :: "char \<Rightarrow> bool" where
  "is_digit c = (c \<in> set ascii_digits)"

text \<open>\<open>\<bslash>s\<close> and \<open>str.strip()\<close>: tab, line feed, vertical tab, form feed, carriage
  return, the four separators \<open>0x1C\<close> to \<open>0x1F\<close>, and the space.\<close>

definition is_space :: "char \<Rightarrow> bool" where
  "is_space c = (c \<in> set [CHR 0x09, CHR 0x0A, CHR 0x0B, CHR 0x0C, CHR 0x0D,
                           CHR 0x1C, CHR 0x1D, CHR 0x1E, CHR 0x1F, CHR '' ''])"

text \<open>\<open>\<bslash>w\<close>: letters, digits and the underscore.\<close>

definition is_word_char :: "char \<Rightarrow> bool" where
  "is_word_char c = (is_upper c \<or> is_lower c \<or> is_digit c \<or> c = CHR ''_'')"

definition lower_char :: "char \<Rightarrow> char" where
  "lower_char c = (case map_of (zip ascii_uppercase ascii_lowercase) c of
                     Some d \<Rightarrow> d | None \<Rightarrow> c)"

text \<open>\<open>s.lower()\<close>\<close>

definition lower :: "string \<Rightarrow> string" where
  "lower s = map lower_char s"

text \<open>
  The maximal runs of the characters that satisfy \<open>P\<close>, from left to right; \<open>cur\<close> is
  the run being read.
\<close>

fun runs :: "(char \<Rightarrow> bool) \<Rightarrow> string \<Rightarrow> string \<Rightarrow> string list" where
  "runs P cur [] = (if cur = [] then [] else [cur])"
| "runs P cur (c # cs) =
     (if P c then runs P (cur @ [c]) cs
      else if cur = [] then runs P [] cs
      else cur # runs P [] cs)"

text \<open>
  \<open>re.findall(r'\<bslash>b\<bslash>w+\<bslash>b', s)\<close>: a match starts at a word boundary and the greedy
  \<open>\<bslash>w+\<close> runs to the next boundary, so the matches are the maximal runs of word
  characters.
\<close>

definition findall_words :: "string \<Rightarrow> string list" where
  "findall_words s = runs is_word_char [] s"

text \<open>
  \<open>re.findall(r'\<bslash>b\<bslash>w{4,}\<bslash>b', s)\<close>: inside a run no position is a word boundary,
  so a match is a whole maximal run, and it needs four characters at least.
\<close>

definition findall_words4 :: "string \<Rightarrow> string list" where
  "findall_words4 s = filter (\<lambda>t. 4 \<le> length t) (findall_words s)"

text \<open>\<open>s.split()\<close>: the maximal runs of characters that are not whitespace.\<close>

definition split_whitespace :: "string \<Rightarrow> string list" where
  "split_whitespace s = runs (\<lambda>c. \<not> is_space c) [] s"

text \<open>\<open>s.strip()\<close>\<close>

definition strip :: "string \<Rightarrow> string" where
  "strip s = rev (dropWhile is_space (rev (dropWhile is_space s)))"

text \<open>\<open>s.rstrip(':')\<close>\<close>

definition rstrip_colon :: "string \<Rightarrow> string" where
  "rstrip_colon s = rev (dropWhile (\<lambda>c. c = CHR '':'') (rev s))"

text \<open>\<open>s.startswith(p)\<close>\<close>

fun starts_with :: "string \<Rightarrow> string \<Rightarrow> bool" where
  "starts_with s [] = True"
| "starts_with [] (p # ps) = False"
| "starts_with (c # cs) (p # ps) = (c = p \<and> starts_with cs ps)"

text \<open>\<open>needle in hay\<close> on strings: \<open>needle\<close> occurs in \<open>hay\<close> as a substring.\<close>

fun str_contains :: "string \<Rightarrow> string \<Rightarrow> bool" where
  "str_contains [] needle = (needle = [])"
| "str_contains (c # cs) needle = (starts_with (c # cs) needle \<or> str_contains cs needle)"

text \<open>\<open>any(term in s for term in terms)\<close>\<close>

definition any_in :: "string list \<Rightarrow> string \<Rightarrow> bool" where
  "any_in terms s = list_ex (\<lambda>kw. str_contains s kw) terms"

text \<open>\<open>s.split(sep)\<close> for a separator of one character and of two characters, the two
  forms the code uses (\<open>'\<bslash>n'\<close>; \<open>'\<bslash>n\<bslash>n'\<close> and \<open>'. '\<close>). The pieces are cut at
  the occurrences of the separator read from the left, without overlap.\<close>

fun split1 :: "char \<Rightarrow> string \<Rightarrow> string \<Rightarrow> string list" where
  "split1 a cur [] = [cur]"
| "split1 a cur (c # cs) =
     (if c = a then cur # split1 a [] cs else split1 a (cur @ [c]) cs)"

fun split2 :: "char \<Rightarrow> char \<Rightarrow> string \<Rightarrow> string \<Rightarrow> string list" where
  "split2 a b cur [] = [cur]"
| "split2 a b cur [c] = [cur @ [c]]"
| "split2 a b cur (c # d # cs) =
     (if c = a \<and> d = b then cur # split2 a b [] cs else split2 a b (cur @ [c]) (d # cs))"

definition newline :: char where
  "newline = CHR 0x0A"

definition split_lines :: "string \<Rightarrow> string list" where
  "split_lines s = split1 newline [] s"

text \<open>\<open>sep.join(xs)\<close>\<close>

fun join :: "string \<Rightarrow> string list \<Rightarrow> string" where
  "join sep [] = []"
| "join sep [x] = x"
| "join sep (x # y # ys) = x @ sep @ join sep (y # ys)"

text \<open>\<open>s[:50] + "..." if len(s) > 50 else s\<close>\<close>

definition truncate50 :: "string \<Rightarrow> string" where
  "truncate50 s = (if 50 < length s then take 50 s @ ''...'' else s)"

text \<open>\<open>str(n)\<close> for a natural number: its decimal digits.\<close>

definition digit_char :: "nat \<Rightarrow> char" where
  "digit_char d = ascii_digits ! d"

fun str_nat :: "nat \<Rightarrow> string" where
  "str_nat n = (if n < 10 then [digit_char n] else str_nat (n div 10) @ [digit_char (n mod 10)])"

declare str_nat.simps [simp del]

text \<open>\<open>sum(1 for x in xs if P(x))\<close>\<close>

definition count_if :: "('a \<Rightarrow> bool) \<Rightarrow> 'a list \<Rightarrow> nat" where
  "count_if P xs = sum_list (map (\<lambda>x. 1) (filter P xs))"

text \<open>\<open>d.get(k, [])\<close> on a dictionary kept as an association list in insertion order.\<close>

definition dict_get :: "('k \<times> 'v list) list \<Rightarrow> 'k \<Rightarrow> 'v list" where
  "dict_get d k = (case map_of d k of Some v \<Rightarrow> v | None \<Rightarrow> [])"

section \<open>Document analyser: data\<close>

text \<open>
  The sections are Python dictionaries with a fixed set of keys; each stage adds keys.
  A candidate section is what a detector creates, a unique section is a candidate with
  the three keys that \<open>_process_detected_sections\<close> adds. Every key read with
  \<open>.get(key, default)\<close> is present in these dictionaries, so the defaults are never used.
\<close>

record candidate_section =
  section_title :: string
  page_number :: nat
  content :: string
  detection_method :: string

record unique_section = candidate_section +
  section_id :: string
  word_count :: nat
  confidence_score :: real

text \<open>A page of \<open>page_contents\<close>: the keys \<open>page_number\<close>, \<open>text\<close>, \<open>char_count\<close>.\<close>

record page =
  pg_number :: nat
  pg_text :: string
  pg_char_count :: nat

definition min_section_length :: nat where
  "min_section_length = 30"

definition max_section_length :: nat where
  "max_section_length = 2000"

definition max_sections :: nat where
  "max_sections = 50"

definition max_lookahead_lines :: nat where
  "max_lookahead_lines = 5"

section \<open>Document analyser: header detection\<close>

text \<open>
  The four patterns of \<open>_get_header_patterns\<close>, each as the function that
  \<open>re.search(pattern, line, re.MULTILINE)\<close> computes on a line: \<open>None\<close> when there is no
  match, and group 1 of the leftmost match otherwise. A line is a piece of
  \<open>page_text.split('\<bslash>n')\<close>, stripped, so it has no line feed: \<open>^\<close> matches at its start
  only and \<open>$\<close> at its end only.
\<close>

text \<open>\<open>^([A-Z][A-Z\<bslash>s]{5,40})$\<close>: the whole line is a capital followed by 5 to 40
  capitals or whitespace characters.\<close>

definition match_all_caps :: "string \<Rightarrow> string option" where
  "match_all_caps line =
     (case line of
        [] \<Rightarrow> None
      | c # cs \<Rightarrow>
          if is_upper c \<and> 5 \<le> length cs \<and> length cs \<le> 40
             \<and> list_all (\<lambda>d. is_upper d \<or> is_space d) cs
          then Some line else None)"

text \<open>\<open>^(\<bslash>d+\<bslash>.?\<bslash>s+[A-Z][^.!?]*?)(?:\<bslash>n|$)\<close>: digits, an optional full stop,
  whitespace, a capital, and then up to the end of the line no full stop, exclamation
  mark or question mark. The classes that follow each other are disjoint, so the greedy
  reading is the only one; the lazy tail has to reach the end of the line.\<close>

definition drop_optional_dot :: "string \<Rightarrow> string" where
  "drop_optional_dot s = (case s of [] \<Rightarrow> [] | c # r \<Rightarrow> if c = CHR ''.'' then r else s)"

definition match_numbered :: "string \<Rightarrow> string option" where
  "match_numbered line =
     (let ds = takeWhile is_digit line;
          r1 = drop_optional_dot (dropWhile is_digit line);
          ws = takeWhile is_space r1;
          r2 = dropWhile is_space r1
      in if ds \<noteq> [] \<and> ws \<noteq> []
            \<and> (case r2 of [] \<Rightarrow> False
                | c # r \<Rightarrow> is_upper c \<and> list_all (\<lambda>d. d \<notin> set ''.!?'') r)
         then Some line else None)"

text \<open>\<open>^([A-Z][a-z]+(?:\<bslash>s+[A-Z][a-z]+)*):\<close>: capitalised words separated by whitespace,
  then a colon. \<open>title_word\<close> reads \<open>[A-Z][a-z]+\<close> and returns the word and the rest;
  \<open>title_phrase\<close> reads the greedy repetition. Giving back a character never helps
  (the next character would be a lower-case letter or whitespace where a colon is
  needed), so the greedy reading decides the match.\<close>

definition title_word :: "string \<Rightarrow> (string \<times> string) option" where
  "title_word s =
     (case s of
        [] \<Rightarrow> None
      | c # r \<Rightarrow>
          if is_upper c \<and> takeWhile is_lower r \<noteq> []
          then Some (c # takeWhile is_lower r, dropWhile is_lower r) else None)"

function title_phrase :: "string \<Rightarrow> string \<Rightarrow> string \<times> string" where
  "title_phrase acc rest =
     (if takeWhile is_space rest = [] then (acc, rest)
      else case title_word (dropWhile is_space rest) of
             None \<Rightarrow> (acc, rest)
           | Some (w, r) \<Rightarrow> title_phrase (acc @ takeWhile is_space rest @ w) r)"
  by pat_completeness auto
termination
proof (relation "measure (\<lambda>(acc, rest). length rest)")
  show "wf (measure (\<lambda>(acc, rest). length rest))" by simp
next
  fix acc rest :: string and x2 :: "string \<times> string" and w r :: string
  assume a: "title_word (dropWhile is_space rest) = Some x2" and b: "(w, r) = x2"
  have "length r < length (dropWhile is_space rest)"
    using a b by (auto simp: title_word_def split: list.splits if_splits
        intro: le_imp_less_Suc length_dropWhile_le)
  also have "\<dots> \<le> length rest" by (rule length_dropWhile_le)
  finally show "((acc @ takeWhile is_space rest @ w, r), (acc, rest))
                  \<in> measure (\<lambda>(acc, rest). length rest)" by simp
qed

definition match_title_colon :: "string \<Rightarrow> string option" where
  "match_title_colon line =
     (case title_word line of
        None \<Rightarrow> None
      | Some (w, r) \<Rightarrow>
          (case title_phrase w r of
             (g, rest) \<Rightarrow>
               (case rest of [] \<Rightarrow> None
                | c # _ \<Rightarrow> if c = CHR '':'' then Some g else None)))"

text \<open>\<open>(?:Chapter|Section)\<bslash>s+\<bslash>d+[:\<bslash>-\<bslash>s]*(.+)\<close>, not anchored. \<open>chapter_at\<close> is the
  match that starts at the first character: after the keyword, the whitespace and the
  digits, the separators are read greedily and group 1 is the rest of the line. When
  nothing is left for \<open>(.+)\<close> the matcher gives back one character: the last separator,
  or else the last of at least two digits. \<open>search_chapter\<close> takes the leftmost start.\<close>

definition is_chapter_sep :: "char \<Rightarrow> bool" where
  "is_chapter_sep c = (c = CHR '':'' \<or> c = CHR ''-'' \<or> is_space c)"

definition chapter_at :: "string \<Rightarrow> string option" where
  "chapter_at s =
     (if starts_with s ''Chapter'' \<or> starts_with s ''Section'' then
        let r0 = drop 7 s;
            ws = takeWhile is_space r0;
            r1 = dropWhile is_space r0;
            ds = takeWhile is_digit r1;
            r2 = dropWhile is_digit r1;
            seps = takeWhile is_chapter_sep r2;
            r3 = dropWhile is_chapter_sep r2
        in if ws = [] \<or> ds = [] then None
           else if r3 \<noteq> [] then Some r3
           else if seps \<noteq> [] then Some [last seps]
           else if 2 \<le> length ds then Some [last ds]
           else None
      else None)"

fun search_chapter :: "string \<Rightarrow> string option" where
  "search_chapter [] = chapter_at []"
| "search_chapter (c # cs) =
     (case chapter_at (c # cs) of Some g \<Rightarrow> Some g | None \<Rightarrow> search_chapter cs)"

text \<open>\<open>DocumentAnalyzer._get_header_patterns\<close>\<close>

definition get_header_patterns :: "(string \<Rightarrow> string option) list" where
  "get_header_patterns = [match_all_caps, match_numbered, match_title_colon, search_chapter]"

text \<open>\<open>DocumentAnalyzer._is_valid_line\<close>\<close>

definition is_valid_line :: "string \<Rightarrow> bool" where
  "is_valid_line line = (line \<noteq> [] \<and> 5 \<le> length line)"

text \<open>\<open>DocumentAnalyzer._match_header_patterns\<close>\<close>

fun match_header_patterns :: "string \<Rightarrow> (string \<Rightarrow> string option) list \<Rightarrow> string option" where
  "match_header_patterns line [] = None"
| "match_header_patterns line (pattern # patterns) =
     (case pattern line of
        None \<Rightarrow> match_header_patterns line patterns
      | Some g \<Rightarrow>
          let title = rstrip_colon (strip g)
          in if 5 < length title \<and> length title < 80 then Some title
             else match_header_patterns line patterns)"

text \<open>\<open>DocumentAnalyzer._is_header_line\<close>\<close>

definition is_header_line :: "string \<Rightarrow> string \<Rightarrow> bool" where
  "is_header_line line header_line = str_contains (strip line) (strip header_line)"

text \<open>\<open>DocumentAnalyzer._should_stop_content_extraction\<close>. The two patterns are
  \<open>^[A-Z][A-Z\<bslash>s]{5,}$\<close> on the stripped line and the prefix \<open>^\<bslash>d+\<bslash>.?\<bslash>s+[A-Z]\<close>.\<close>

definition looks_all_caps :: "string \<Rightarrow> bool" where
  "looks_all_caps line =
     (case line of [] \<Rightarrow> False
      | c # cs \<Rightarrow> is_upper c \<and> 5 \<le> length cs \<and> list_all (\<lambda>d. is_upper d \<or> is_space d) cs)"

definition looks_numbered :: "string \<Rightarrow> bool" where
  "looks_numbered line =
     (let ds = takeWhile is_digit line;
          r1 = drop_optional_dot (dropWhile is_digit line);
          ws = takeWhile is_space r1;
          r2 = dropWhile is_space r1
      in ds \<noteq> [] \<and> ws \<noteq> [] \<and> (case r2 of [] \<Rightarrow> False | c # _ \<Rightarrow> is_upper c))"

definition should_stop_content_extraction :: "string \<Rightarrow> string list \<Rightarrow> bool" where
  "should_stop_content_extraction line0 content_lines =
     (let line = strip line0
      in if line = [] then False
         else if looks_all_caps line \<or> looks_numbered line then True
         else max_section_length < length (join '' '' content_lines))"

text \<open>\<open>DocumentAnalyzer._extract_content_after_header\<close>: the loop over the lines, with
  the flag \<open>found_header\<close> and the list \<open>content_lines\<close> as its state; \<open>break\<close> returns
  the list as it is.\<close>

fun content_loop :: "string \<Rightarrow> string list \<Rightarrow> bool \<Rightarrow> string list \<Rightarrow> string list" where
  "content_loop header_line [] found_header content_lines = content_lines"
| "content_loop header_line (line # lines) found_header content_lines =
     (if is_header_line line header_line
      then content_loop header_line lines True content_lines
      else if found_header then
        (if should_stop_content_extraction line content_lines then content_lines
         else content_loop header_line lines found_header (content_lines @ [strip line]))
      else content_loop header_line lines found_header content_lines)"

definition extract_content_after_header :: "string \<Rightarrow> string \<Rightarrow> string" where
  "extract_content_after_header page_text header_line =
     join '' '' (content_loop header_line (split_lines page_text) False [])"

text \<open>\<open>DocumentAnalyzer._create_header_section\<close>: \<open>None\<close> when the content is empty.\<close>

definition create_header_section :: "string \<Rightarrow> string \<Rightarrow> nat \<Rightarrow> candidate_section option" where
  "create_header_section title page_text page_num =
     (let content_text = extract_content_after_header page_text title
      in if content_text \<noteq> [] then
           Some \<lparr>section_title = title, page_number = page_num, content = content_text,
                 detection_method = ''header''\<rparr>
         else None)"

text \<open>\<open>DocumentAnalyzer._find_headers_in_page\<close>\<close>

fun header_lines_loop ::
  "string list \<Rightarrow> (string \<Rightarrow> string option) list \<Rightarrow> string \<Rightarrow> nat \<Rightarrow> candidate_section list \<Rightarrow> candidate_section list" where
  "header_lines_loop [] patterns page_text page_num sections = sections"
| "header_lines_loop (line0 # lines) patterns page_text page_num sections =
     (let line = strip line0
      in if \<not> is_valid_line line
         then header_lines_loop lines patterns page_text page_num sections
         else case match_header_patterns line patterns of
                None \<Rightarrow> header_lines_loop lines patterns page_text page_num sections
              | Some header_match \<Rightarrow>
                  (case create_header_section header_match page_text page_num of
                     None \<Rightarrow> header_lines_loop lines patterns page_text page_num sections
                   | Some sec \<Rightarrow>
                       header_lines_loop lines patterns page_text page_num (sections @ [sec])))"

definition find_headers_in_page :: "page \<Rightarrow> (string \<Rightarrow> string option) list \<Rightarrow> candidate_section list" where
  "find_headers_in_page page_info patterns =
     header_lines_loop (split_lines (pg_text page_info)) patterns
       (pg_text page_info) (pg_number page_info) []"

text \<open>\<open>DocumentAnalyzer._detect_by_headers\<close>\<close>

definition detect_by_headers :: "string \<Rightarrow> page list \<Rightarrow> candidate_section list" where
  "detect_by_headers full_text pages =
     concat (map (\<lambda>page_info. find_headers_in_page page_info get_header_patterns) pages)"

section \<open>Document analyser: paragraph detection\<close>

text \<open>\<open>DocumentAnalyzer._is_valid_paragraph_length\<close>\<close>

definition is_valid_paragraph_length :: "string \<Rightarrow> bool" where
  "is_valid_paragraph_length paragraph =
     (min_section_length \<le> length paragraph \<and> length paragraph \<le> max_section_length)"

text \<open>\<open>DocumentAnalyzer._generate_paragraph_title\<close>: \<open>split\<close> returns at least one
  piece, so \<open>sentences[0]\<close> exists.\<close>

definition generate_paragraph_title :: "string \<Rightarrow> string" where
  "generate_paragraph_title paragraph =
     (let sentences = split2 (CHR ''.'') (CHR '' '') [] paragraph;
          first_sentence = (case sentences of [] \<Rightarrow> [] | x # _ \<Rightarrow> x)
      in truncate50 first_sentence)"

text \<open>\<open>DocumentAnalyzer._create_paragraph_section\<close>\<close>

definition create_paragraph_section :: "string \<Rightarrow> nat \<Rightarrow> candidate_section" where
  "create_paragraph_section paragraph page_num =
     (let title = generate_paragraph_title paragraph
      in \<lparr>section_title = title, page_number = page_num, content = paragraph,
          detection_method = ''paragraph''\<rparr>)"

text \<open>\<open>DocumentAnalyzer._extract_paragraph_sections\<close>\<close>

definition extract_paragraph_sections :: "page \<Rightarrow> candidate_section list" where
  "extract_paragraph_sections page_info =
     (let page_num = pg_number page_info;
          page_text = pg_text page_info;
          paragraphs = map strip (filter (\<lambda>p. strip p \<noteq> []) (split2 newline newline [] page_text))
      in map (\<lambda>paragraph. create_paragraph_section paragraph page_num)
             (filter is_valid_paragraph_length paragraphs))"

text \<open>\<open>DocumentAnalyzer._detect_by_paragraphs\<close>\<close>

definition detect_by_paragraphs :: "string \<Rightarrow> page list \<Rightarrow> candidate_section list" where
  "detect_by_paragraphs full_text pages = concat (map extract_paragraph_sections pages)"

section \<open>Document analyser: list detection\<close>

text \<open>\<open>\<bslash>s+.+\<close> at the start of a string: a whitespace character, and then either a
  character other than the line feed, or the same pattern again.\<close>

fun space_then_text :: "string \<Rightarrow> bool" where
  "space_then_text [] = False"
| "space_then_text (c # cs) =
     (is_space c \<and> (case cs of [] \<Rightarrow> False | d # _ \<Rightarrow> d \<noteq> newline \<or> space_then_text cs))"

text \<open>\<open>DocumentAnalyzer._is_list_item\<close>: \<open>^[\<bullet>\<bslash>-\<bslash>*]\<bslash>s+.+\<close> or \<open>^\<bslash>d+[\<bslash>.\<bslash>)]\<bslash>s+.+\<close>.
  The bullet glyph is not an ASCII character, so of the first class the model has the
  hyphen and the asterisk.\<close>

definition is_list_item :: "string \<Rightarrow> bool" where
  "is_list_item line =
     ((case line of [] \<Rightarrow> False
       | c # cs \<Rightarrow> (c = CHR ''-'' \<or> c = CHR ''*'') \<and> space_then_text cs)
      \<or> (takeWhile is_digit line \<noteq> []
          \<and> (case dropWhile is_digit line of [] \<Rightarrow> False
              | c # cs \<Rightarrow> (c = CHR ''.'' \<or> c = CHR '')'') \<and> space_then_text cs)))"

text \<open>\<open>DocumentAnalyzer._is_continuation_line\<close>\<close>

definition is_continuation_line :: "string \<Rightarrow> bool" where
  "is_continuation_line line =
     (is_list_item line \<or> (line \<noteq> [] \<and> \<not> (case line of [] \<Rightarrow> False | c # _ \<Rightarrow> is_upper c)))"

text \<open>\<open>DocumentAnalyzer._gather_list_content\<close>: the loop runs over the lines
  \<open>start_index + 1\<close> to \<open>min(len(lines), start_index + max_lookahead_lines + 1) - 1\<close>.\<close>

fun gather_loop :: "string list \<Rightarrow> string \<Rightarrow> string" where
  "gather_loop [] gathered = gathered"
| "gather_loop (line0 # lines) gathered =
     (let next_line = strip line0
      in if next_line = [] then gather_loop lines gathered
         else if is_continuation_line next_line
         then gather_loop lines
                (gathered @ (if is_list_item next_line then [newline] @ next_line
                             else '' '' @ next_line))
         else gathered)"

definition gather_list_content :: "string list \<Rightarrow> nat \<Rightarrow> string" where
  "gather_list_content lines start_index =
     gather_loop (take max_lookahead_lines (drop (start_index + 1) lines))
                 (strip (lines ! start_index))"

text \<open>\<open>DocumentAnalyzer._create_list_section\<close>; it is called with
  \<open>start_index < len(lines)\<close>.\<close>

definition create_list_section :: "string list \<Rightarrow> nat \<Rightarrow> nat \<Rightarrow> candidate_section option" where
  "create_list_section lines start_index page_num =
     (let line = strip (lines ! start_index);
          title = truncate50 line;
          content_text = gather_list_content lines start_index
      in if min_section_length < length content_text then
           Some \<lparr>section_title = title, page_number = page_num, content = content_text,
                 detection_method = ''list''\<rparr>
         else None)"

text \<open>\<open>DocumentAnalyzer._extract_list_sections\<close>\<close>

definition extract_list_sections :: "page \<Rightarrow> candidate_section list" where
  "extract_list_sections page_info =
     (let page_num = pg_number page_info;
          lines = split_lines (pg_text page_info)
      in concat (map (\<lambda>i. if is_list_item (strip (lines ! i))
                           then (case create_list_section lines i page_num of
                                   None \<Rightarrow> [] | Some sec \<Rightarrow> [sec])
                           else [])
                     [0 ..< length lines]))"

text \<open>\<open>DocumentAnalyzer._detect_by_lines\<close>\<close>

definition detect_by_lines :: "string \<Rightarrow> page list \<Rightarrow> candidate_section list" where
  "detect_by_lines full_text pages = concat (map extract_list_sections pages)"

section \<open>Document analyser: section resolver\<close>

text \<open>\<open>DocumentAnalyzer._get_base_confidence_score\<close>\<close>

definition get_base_confidence_score :: real where
  "get_base_confidence_score = 0.5"

text \<open>\<open>DocumentAnalyzer._get_method_score\<close>: \<open>method_scores.get(method, 0.0)\<close>\<close>

definition get_method_score :: "string \<Rightarrow> real" where
  "get_method_score method =
     (case map_of [(''header'', 0.3), (''paragraph'', 0.2), (''list'', 0.1)] method of
        Some v \<Rightarrow> v | None \<Rightarrow> 0)"

text \<open>\<open>DocumentAnalyzer._get_content_quality_score\<close>\<close>

definition get_content_quality_score :: "string \<Rightarrow> string \<Rightarrow> real" where
  "get_content_quality_score content_text title =
     (let score = 0;
          score = (if 100 < length content_text then score + 0.1 else score);
          score = (if 10 < length title then score + 0.1 else score)
      in score)"

text \<open>\<open>DocumentAnalyzer._calculate_confidence\<close>\<close>

definition calculate_confidence :: "candidate_section \<Rightarrow> real" where
  "calculate_confidence sec =
     (let content_text = content sec;
          title = section_title sec;
          method = detection_method sec;
          score = get_base_confidence_score;
          score = score + get_method_score method;
          score = score + get_content_quality_score content_text title
      in min score 1)"

text \<open>\<open>DocumentAnalyzer._is_valid_section\<close>\<close>

definition is_valid_section :: "candidate_section \<Rightarrow> string set \<Rightarrow> bool" where
  "is_valid_section sec seen_titles =
     (let title = section_title sec
      in title \<noteq> [] \<and> title \<notin> seen_titles \<and> 3 < length title)"

text \<open>The keys that the loop of \<open>_process_detected_sections\<close> adds to the candidate at
  index \<open>i\<close>.\<close>

definition add_section_metadata :: "string \<Rightarrow> nat \<Rightarrow> candidate_section \<Rightarrow> unique_section" where
  "add_section_metadata filename i sec =
     candidate_section.extend sec
       \<lparr>section_id = filename @ ''_section_'' @ str_nat (i + 1),
        word_count = length (split_whitespace (content sec)),
        confidence_score = calculate_confidence sec\<rparr>"

text \<open>\<open>DocumentAnalyzer._process_detected_sections\<close>: the loop over
  \<open>enumerate(sections)\<close> with \<open>unique_sections\<close> and \<open>seen_titles\<close> as its state,
  then the slice \<open>[:self.max_sections]\<close>.\<close>

fun process_loop ::
  "string \<Rightarrow> nat \<Rightarrow> candidate_section list \<Rightarrow> unique_section list \<Rightarrow> string set \<Rightarrow> unique_section list" where
  "process_loop filename i [] unique_sections seen_titles = unique_sections"
| "process_loop filename i (sec # sections) unique_sections seen_titles =
     (if is_valid_section sec seen_titles
      then process_loop filename (i + 1) sections
             (unique_sections @ [add_section_metadata filename i sec])
             (insert (section_title sec) seen_titles)
      else process_loop filename (i + 1) sections unique_sections seen_titles)"

definition process_detected_sections :: "candidate_section list \<Rightarrow> string \<Rightarrow> unique_section list" where
  "process_detected_sections sections filename =
     take max_sections (process_loop filename 0 sections [] {})"

text \<open>\<open>DocumentAnalyzer._detect_sections\<close>\<close>

definition detect_sections :: "string \<Rightarrow> string \<Rightarrow> page list \<Rightarrow> unique_section list" where
  "detect_sections full_text filename pages =
     process_detected_sections
       (detect_by_headers full_text pages @ detect_by_paragraphs full_text pages
          @ detect_by_lines full_text pages)
       filename"

section \<open>Document analyser: entry point\<close>

text \<open>
  The PDF library is not part of the repository. Its part in \<open>analyze_document\<close> is a
  parameter \<open>fitz_open\<close>: opening the file either raises, \<open>Inl\<close> with the text
  \<open>str(e)\<close> of the exception, or gives the document, \<open>Inr\<close> with its pages in order.
  For each page \<open>get_text()\<close> either raises or returns the page text, in the same way.
  The clock \<open>datetime.now().isoformat()\<close> is the parameter \<open>now\<close>. The message that
  \<open>_create_error_response\<close> prints to the console is not part of the returned value
  and is left out.
\<close>

type_synonym pdf_document = "(string + string) list"

text \<open>The metadata dictionary has the keys \<open>filename\<close>, \<open>total_pages\<close>,
  \<open>total_characters\<close>, \<open>total_sections\<close>, \<open>processing_timestamp\<close> after a successful
  analysis, and the keys \<open>filename\<close>, \<open>error\<close> in an error response.\<close>

datatype metadata =
  Metadata (filename: string) (total_pages: nat) (total_characters: nat)
           (total_sections: nat) (processing_timestamp: string)
| ErrorMetadata (filename: string) (error: string)

record document_analysis =
  da_metadata :: metadata
  da_full_text :: string
  da_pages :: "page list"
  da_sections :: "unique_section list"

text \<open>\<open>Path(file_path).name\<close> on a POSIX path: the last component that is neither
  empty nor a single dot, and the empty string when there is none.\<close>

definition path_name :: "string \<Rightarrow> string" where
  "path_name file_path =
     (let parts = filter (\<lambda>p. p \<noteq> [] \<and> p \<noteq> ''.'') (split1 (CHR ''/'') [] file_path)
      in if parts = [] then [] else last parts)"

text \<open>\<open>DocumentAnalyzer._extract_pdf_content\<close>: the loop over the pages; an exception of
  \<open>get_text()\<close> leaves the loop.\<close>

fun extract_pages ::
  "nat \<Rightarrow> pdf_document \<Rightarrow> string \<Rightarrow> page list \<Rightarrow> string + (string \<times> page list)" where
  "extract_pages page_num [] full_text page_contents = Inr (full_text, page_contents)"
| "extract_pages page_num (p # ps) full_text page_contents =
     (case p of
        Inl e \<Rightarrow> Inl e
      | Inr page_text \<Rightarrow>
          extract_pages (page_num + 1) ps (full_text @ page_text @ [newline])
            (page_contents @ [\<lparr>pg_number = page_num + 1, pg_text = strip page_text,
                                 pg_char_count = length page_text\<rparr>]))"

definition extract_pdf_content :: "pdf_document \<Rightarrow> string + (string \<times> page list)" where
  "extract_pdf_content doc = extract_pages 0 doc [] []"

text \<open>\<open>DocumentAnalyzer._generate_metadata\<close>\<close>

definition generate_metadata ::
  "string \<Rightarrow> string \<Rightarrow> page list \<Rightarrow> string \<Rightarrow> unique_section list \<Rightarrow> metadata" where
  "generate_metadata now file_path pages full_text sections =
     Metadata (path_name file_path) (length pages) (length full_text) (length sections) now"

text \<open>\<open>DocumentAnalyzer._create_error_response\<close>\<close>

definition create_error_response :: "string \<Rightarrow> string \<Rightarrow> document_analysis" where
  "create_error_response file_path err =
     \<lparr>da_metadata = ErrorMetadata (path_name file_path) err,
      da_full_text = [], da_pages = [], da_sections = []\<rparr>"

text \<open>\<open>DocumentAnalyzer.analyze_document\<close>: the \<open>try\<close> block, and the handler for
  each place where the block can raise.\<close>

definition analyze_document ::
  "(string \<Rightarrow> string + pdf_document) \<Rightarrow> string \<Rightarrow> string \<Rightarrow> document_analysis" where
  "analyze_document fitz_open now file_path =
     (case fitz_open file_path of
        Inl e \<Rightarrow> create_error_response file_path e
      | Inr doc \<Rightarrow>
          (case extract_pdf_content doc of
             Inl e \<Rightarrow> create_error_response file_path e
           | Inr (full_text, page_contents) \<Rightarrow>
               let sections = detect_sections full_text (path_name file_path) page_contents;
                   metadata = generate_metadata now file_path page_contents full_text sections
               in \<lparr>da_metadata = metadata, da_full_text = full_text,
                   da_pages = page_contents, da_sections = sections\<rparr>))"

section \<open>Persona processor: keyword tables\<close>

definition role_terms :: "(string \<times> string list) list" where
  "role_terms =
    [(''researcher'', [''research'', ''study'', ''analysis'', ''methodology'', ''data'', ''experiment'',
                       ''hypothesis'', ''literature'', ''publication'', ''findings'', ''results'', ''conclusion'']),
     (''student'', [''learn'', ''study'', ''understand'', ''concept'', ''theory'', ''practice'',
                    ''example'', ''exercise'', ''exam'', ''assignment'', ''knowledge'', ''skill'']),
     (''analyst'', [''analyze'', ''evaluate'', ''assess'', ''trend'', ''pattern'', ''metric'',
                    ''performance'', ''comparison'', ''forecast'', ''strategy'', ''insight'', ''recommendation'']),
     (''teacher'', [''teach'', ''explain'', ''instruction'', ''curriculum'', ''lesson'', ''education'',
                    ''training'', ''guidance'', ''demonstration'', ''assessment'', ''learning'', ''development'']),
     (''manager'', [''manage'', ''plan'', ''organize'', ''control'', ''strategy'', ''decision'',
                    ''resource'', ''team'', ''process'', ''objective'', ''performance'', ''leadership'']),
     (''entrepreneur'', [''business'', ''opportunity'', ''market'', ''innovation'', ''startup'', ''venture'',
                         ''revenue'', ''growth'', ''investment'', ''competition'', ''strategy'', ''scalability''])]"

definition task_terms :: "(string \<times> string list) list" where
  "task_terms =
    [(''review'', [''review'', ''summary'', ''overview'', ''evaluation'', ''assessment'', ''analysis'']),
     (''learn'', [''learn'', ''understand'', ''study'', ''master'', ''practice'', ''acquire'']),
     (''analyze'', [''analyze'', ''examine'', ''investigate'', ''evaluate'', ''assess'', ''compare'']),
     (''prepare'', [''prepare'', ''plan'', ''organize'', ''design'', ''develop'', ''create'']),
     (''summarize'', [''summarize'', ''condense'', ''extract'', ''highlight'', ''synthesize'', ''distill''])]"

section \<open>Relevance scorer\<close>

text \<open>\<open>PersonaProcessor._compute_relevance_score\<close>\<close>

definition compute_relevance_score :: "string \<Rightarrow> string \<Rightarrow> string \<Rightarrow> string \<Rightarrow> real" where
  "compute_relevance_score text_content role_category task_category task_description =
    (let normalized_content = lower text_content;
         word_tokens = findall_words normalized_content;
         token_count = length word_tokens
     in if token_count = 0 then 0
        else
          let role_specific_terms = dict_get role_terms role_category;
              role_matches = count_if (\<lambda>token. token \<in> set role_specific_terms) word_tokens;
              role_relevance = real role_matches / real token_count;
              task_specific_terms = dict_get task_terms task_category;
              task_matches = count_if (\<lambda>token. token \<in> set task_specific_terms) word_tokens;
              task_relevance = real task_matches / real token_count;
              task_word_set = set (findall_words (lower task_description));
              direct_matches = count_if (\<lambda>token. token \<in> task_word_set \<and> 3 < length token) word_tokens;
              direct_relevance = real direct_matches / real token_count;
              combined_score = 0.4 * role_relevance + 0.3 * task_relevance + 0.3 * direct_relevance
          in min (combined_score * 10) 1)"

text \<open>\<open>PersonaProcessor._compute_task_alignment_score\<close>\<close>

definition compute_task_alignment_score :: "string \<Rightarrow> string \<Rightarrow> real" where
  "compute_task_alignment_score text_content task_description =
    (let normalized_content = lower text_content;
         normalized_task = lower task_description;
         task_keywords = set (findall_words4 normalized_task);
         content_keywords = set (findall_words4 normalized_content)
     in if task_keywords = {} then 0
        else
          let matched_terms = card (task_keywords \<inter> content_keywords);
              similarity_score = real matched_terms / real (card task_keywords)
          in min similarity_score 1)"

section \<open>Role and job classifiers\<close>

text \<open>\<open>sum(1 for keyword in keyword_list if keyword in normalized)\<close>\<close>

definition keyword_score :: "string list \<Rightarrow> string \<Rightarrow> nat" where
  "keyword_score keyword_list normalized = count_if (\<lambda>keyword. str_contains normalized keyword) keyword_list"

text \<open>The dictionary of the positive scores that the loop over \<open>terms.items()\<close>
  builds, in insertion order; the keys of the tables are distinct, so every entry is a
  new key.\<close>

fun score_loop :: "(string \<times> string list) list \<Rightarrow> string \<Rightarrow> (string \<times> nat) list \<Rightarrow> (string \<times> nat) list" where
  "score_loop [] normalized scores = scores"
| "score_loop ((category, keyword_list) # rest) normalized scores =
     (let score = keyword_score keyword_list normalized
      in if 0 < score then score_loop rest normalized (scores @ [(category, score)])
         else score_loop rest normalized scores)"

text \<open>\<open>max(scores, key=scores.get)\<close> on a dictionary that is not empty: the keys are
  read in insertion order and a later key replaces the best one only when its score is
  greater.\<close>

fun max_key_loop :: "string \<times> nat \<Rightarrow> (string \<times> nat) list \<Rightarrow> string" where
  "max_key_loop best [] = fst best"
| "max_key_loop best (kv # rest) =
     (if snd best < snd kv then max_key_loop kv rest else max_key_loop best rest)"

text \<open>\<open>PersonaProcessor._classify_user_role\<close>\<close>

definition classify_user_role :: "string \<Rightarrow> string" where
  "classify_user_role role_description =
     (let normalized_role = lower role_description;
          role_scores = score_loop role_terms normalized_role []
      in case role_scores of
           kv # rest \<Rightarrow> max_key_loop kv rest
         | [] \<Rightarrow>
             if any_in [''phd'', ''research'', ''scientist'', ''academic''] normalized_role
             then ''researcher''
             else if any_in [''student'', ''undergraduate'', ''graduate''] normalized_role
             then ''student''
             else if any_in [''analyst'', ''investment'', ''business''] normalized_role
             then ''analyst''
             else if any_in [''teacher'', ''trainer'', ''instructor''] normalized_role
             then ''teacher''
             else if any_in [''manager'', ''director'', ''executive''] normalized_role
             then ''manager''
             else if any_in [''entrepreneur'', ''founder'', ''startup''] normalized_role
             then ''entrepreneur''
             else ''general'')"

text \<open>\<open>PersonaProcessor._classify_user_task\<close>\<close>

definition classify_user_task :: "string \<Rightarrow> string" where
  "classify_user_task task_description =
     (let normalized_task = lower task_description;
          task_scores = score_loop task_terms normalized_task []
      in case task_scores of
           kv # rest \<Rightarrow> max_key_loop kv rest
         | [] \<Rightarrow> ''general'')"

section \<open>Insight extractor and priority classifier\<close>

text \<open>\<open>PersonaProcessor._extract_role_specific_observations\<close>\<close>

definition extract_role_specific_observations :: "string \<Rightarrow> string \<Rightarrow> string \<Rightarrow> string list" where
  "extract_role_specific_observations text_content role_category task_category =
     (let normalized_text = lower text_content;
          observations = [];
          observations =
            (if role_category = ''researcher'' then
               observations
               @ (if any_in [''methodology'', ''method'', ''approach''] normalized_text
                  then [''Research methodology identified''] else [])
               @ (if any_in [''data'', ''dataset'', ''sample''] normalized_text
                  then [''Data sources and datasets mentioned''] else [])
               @ (if any_in [''result'', ''finding'', ''conclusion''] normalized_text
                  then [''Research findings and results presented''] else [])
             else if role_category = ''student'' then
               observations
               @ (if any_in [''concept'', ''principle'', ''theory''] normalized_text
                  then [''Key concepts for learning identified''] else [])
               @ (if any_in [''example'', ''illustration'', ''case''] normalized_text
                  then [''Examples and illustrations available''] else [])
               @ (if any_in [''exercise'', ''problem'', ''practice''] normalized_text
                  then [''Practice materials and exercises found''] else [])
             else if role_category = ''analyst'' then
               observations
               @ (if any_in [''trend'', ''pattern'', ''analysis''] normalized_text
                  then [''Analytical insights and trends identified''] else [])
               @ (if any_in [''metric'', ''kpi'', ''performance''] normalized_text
                  then [''Performance metrics and KPIs mentioned''] else [])
               @ (if any_in [''forecast'', ''prediction'', ''projection''] normalized_text
                  then [''Forecasting and predictive information''] else [])
             else observations);
          observations =
            (if task_category = ''review'' then
               observations
               @ (if any_in [''summary'', ''overview'', ''abstract''] normalized_text
                  then [''Summary content suitable for review''] else [])
             else if task_category = ''analyze'' then
               observations
               @ (if any_in [''comparison'', ''contrast'', ''versus''] normalized_text
                  then [''Comparative analysis opportunities''] else [])
             else observations)
      in observations)"

text \<open>\<open>PersonaProcessor._find_relevant_concepts\<close>: the loop over the tokens with the
  list \<open>important_concepts\<close> as its state, then the slice \<open>[:10]\<close>.
  \<open>token_frequency\<close> is the \<open>Counter\<close> of the tokens.\<close>

fun concepts_loop :: "string list \<Rightarrow> string list \<Rightarrow> (string \<Rightarrow> nat) \<Rightarrow> string list \<Rightarrow> string list" where
  "concepts_loop [] applicable_terms token_frequency important_concepts = important_concepts"
| "concepts_loop (token # tokens) applicable_terms token_frequency important_concepts =
     (if token \<in> set applicable_terms \<and> 1 \<le> token_frequency token \<and> 3 < length token
         \<and> token \<notin> set important_concepts
      then concepts_loop tokens applicable_terms token_frequency (important_concepts @ [token])
      else concepts_loop tokens applicable_terms token_frequency important_concepts)"

definition find_relevant_concepts :: "string \<Rightarrow> string \<Rightarrow> string list" where
  "find_relevant_concepts text_content role_category =
     (let normalized_content = lower text_content;
          word_tokens = findall_words normalized_content;
          applicable_terms = dict_get role_terms role_category;
          token_frequency = count_list word_tokens
      in take 10 (concepts_loop word_tokens applicable_terms token_frequency []))"

text \<open>\<open>PersonaProcessor._determine_importance_level\<close>\<close>

definition determine_importance_level :: "real \<Rightarrow> string list \<Rightarrow> string list \<Rightarrow> string" where
  "determine_importance_level relevance_metric observation_list concept_list =
     (if 0.6 \<le> relevance_metric \<and> 2 \<le> length observation_list then ''high''
      else if 0.3 \<le> relevance_metric
              \<and> (1 \<le> length observation_list \<or> 3 \<le> length concept_list) then ''medium''
      else ''low'')"

section \<open>Augmentation and aggregation\<close>

record augmented_section = unique_section +
  persona_relevance_score :: real
  persona_insights :: "string list"
  key_concepts :: "string list"
  persona_priority :: string
  job_alignment_score :: real

text \<open>\<open>PersonaProcessor._augment_section_with_role_context\<close>: the copy of the section
  with the five new keys. The parameter \<open>role_description\<close> is not read by the source.\<close>

definition augment_section_with_role_context ::
  "unique_section \<Rightarrow> string \<Rightarrow> string \<Rightarrow> string \<Rightarrow> string \<Rightarrow> augmented_section" where
  "augment_section_with_role_context section_data role_category task_category
       role_description task_description =
     (let section_content = content section_data;
          section_header = section_title section_data;
          relevance_metric = compute_relevance_score (section_content @ '' '' @ section_header)
                               role_category task_category task_description;
          role_observations = extract_role_specific_observations section_content
                                role_category task_category;
          important_concepts = find_relevant_concepts section_content role_category
      in unique_section.extend section_data
           \<lparr>persona_relevance_score = relevance_metric,
            persona_insights = role_observations,
            key_concepts = important_concepts,
            persona_priority = determine_importance_level relevance_metric
                                 role_observations important_concepts,
            job_alignment_score = compute_task_alignment_score
                                    (section_content @ '' '' @ section_header) task_description\<rparr>)"

text \<open>\<open>Counter(xs)\<close>: the counts in the order in which the elements are first seen.\<close>

fun counter_add :: "'a \<Rightarrow> ('a \<times> nat) list \<Rightarrow> ('a \<times> nat) list" where
  "counter_add x [] = [(x, 1)]"
| "counter_add x ((y, n) # rest) =
     (if x = y then (y, n + 1) # rest else (y, n) # counter_add x rest)"

definition counter :: "'a list \<Rightarrow> ('a \<times> nat) list" where
  "counter xs = foldl (\<lambda>c x. counter_add x c) [] xs"

text \<open>\<open>c.most_common(n)\<close> is \<open>heapq.nlargest(n, c.items(), key=itemgetter(1))\<close>, which the
  library documents as \<open>sorted(c.items(), key=itemgetter(1), reverse=True)[:n]\<close>: a stable
  sort by decreasing count, so that items of equal count keep their order.\<close>

definition most_common :: "nat \<Rightarrow> ('a \<times> nat) list \<Rightarrow> ('a \<times> nat) list" where
  "most_common n c = take n (sort_key (\<lambda>item. - int (snd item)) c)"

text \<open>\<open>round(x, 3)\<close>: the multiple of \<open>0.001\<close> that is nearest to \<open>x\<close>; on exact
  numbers a tie goes to the even multiple.\<close>

definition round_half_even :: "real \<Rightarrow> int" where
  "round_half_even x =
     (let f = \<lfloor>x\<rfloor>; d = x - of_int f
      in if d < 1 / 2 then f else if 1 / 2 < d then f + 1
         else if even f then f else f + 1)"

definition round3 :: "real \<Rightarrow> real" where
  "round3 x = of_int (round_half_even (x * 1000)) / 1000"

record role_analysis_summary =
  persona_type :: string
  total_sections_analyzed :: nat
  high_priority_sections :: nat
  medium_priority_sections :: nat
  low_priority_sections :: int
  average_relevance_score :: real
  top_insights :: "string list"

text \<open>\<open>PersonaProcessor._build_role_analysis_summary\<close>. The parameter
  \<open>role_description\<close> is not read by the source.\<close>

definition build_role_analysis_summary ::
  "augmented_section list \<Rightarrow> string \<Rightarrow> string \<Rightarrow> role_analysis_summary" where
  "build_role_analysis_summary section_list role_category role_description =
     (let section_count = length section_list;
          high_importance = count_if (\<lambda>s. persona_priority s = ''high'') section_list;
          medium_importance = count_if (\<lambda>s. persona_priority s = ''medium'') section_list;
          mean_relevance = sum_list (map persona_relevance_score section_list)
                             / real (max section_count 1);
          combined_observations = concat (map persona_insights section_list);
          observation_frequency = counter combined_observations;
          key_observations = map fst (most_common 5 observation_frequency)
      in \<lparr>persona_type = role_category,
          total_sections_analyzed = section_count,
          high_priority_sections = high_importance,
          medium_priority_sections = medium_importance,
          low_priority_sections = int section_count - int high_importance - int medium_importance,
          average_relevance_score = round3 mean_relevance,
          top_insights = key_observations\<rparr>)"

record persona_analysis =
  pa_persona_type :: string
  pa_persona_role :: string
  pa_job_type :: string
  pa_job_context :: string
  pa_sections :: "augmented_section list"
  pa_metadata :: role_analysis_summary

text \<open>\<open>PersonaProcessor.process_with_persona\<close>; the two configuration dictionaries
  are maps from keys to strings.\<close>

definition process_with_persona ::
  "document_analysis \<Rightarrow> (string \<rightharpoonup> string) \<Rightarrow> (string \<rightharpoonup> string) \<Rightarrow> persona_analysis" where
  "process_with_persona doc_analysis user_persona user_job =
     (let role_description = lower (case user_persona ''role'' of Some r \<Rightarrow> r | None \<Rightarrow> []);
          task_description = lower (case user_job ''task'' of Some t \<Rightarrow> t | None \<Rightarrow> []);
          detected_role = classify_user_role role_description;
          detected_task = classify_user_task task_description;
          processed_sections =
            map (\<lambda>section_data. augment_section_with_role_context section_data
                    detected_role detected_task role_description task_description)
                (da_sections doc_analysis);
          role_metadata = build_role_analysis_summary processed_sections
                            detected_role role_description
      in \<lparr>pa_persona_type = detected_role,
          pa_persona_role = role_description,
          pa_job_type = task_description,
          pa_job_context = task_description,
          pa_sections = processed_sections,
          pa_metadata = role_metadata\<rparr>)"

section \<open>The quantities of the specification\<close>

text \<open>The quantities of the specification, in its words: the fraction of the tokens that
  satisfy a condition.\<close>

definition token_fraction :: "(string \<Rightarrow> bool) \<Rightarrow> string list \<Rightarrow> real" where
  "token_fraction P tokens = real (length (filter P tokens)) / real (length tokens)"

definition role_relevance :: "string \<Rightarrow> string list \<Rightarrow> real" where
  "role_relevance role_category tokens =
     token_fraction (\<lambda>t. t \<in> set (dict_get role_terms role_category)) tokens"

definition task_relevance :: "string \<Rightarrow> string list \<Rightarrow> real" where
  "task_relevance task_category tokens =
     token_fraction (\<lambda>t. t \<in> set (dict_get task_terms task_category)) tokens"

definition direct_relevance :: "string \<Rightarrow> string list \<Rightarrow> real" where
  "direct_relevance task_description tokens =
     token_fraction (\<lambda>t. 3 < length t \<and> t \<in> set (findall_words (lower task_description))) tokens"

text \<open>The role classifier in the words of the specification: the count of a category is
  the number of its keywords that occur in the lower-cased description as substrings,
  the classifier takes the first category in declared order whose count is the maximal
  one, and when every count is 0 it takes the first category in the same order with a
  fallback keyword in the description, or \<open>general\<close>. The fallback table is the chain
  of \<open>any(...)\<close> tests of \<open>_classify_user_role\<close>.\<close>

definition category_count :: "string \<Rightarrow> string \<times> string list \<Rightarrow> nat" where
  "category_count normalized entry = keyword_score (snd entry) normalized"

definition max_count :: "(string \<times> string list) list \<Rightarrow> string \<Rightarrow> nat" where
  "max_count table normalized = Max (set (map (category_count normalized) table))"

definition fallback_terms :: "(string \<times> string list) list" where
  "fallback_terms =
     [(''researcher'', [''phd'', ''research'', ''scientist'', ''academic'']),
      (''student'', [''student'', ''undergraduate'', ''graduate'']),
      (''analyst'', [''analyst'', ''investment'', ''business'']),
      (''teacher'', [''teacher'', ''trainer'', ''instructor'']),
      (''manager'', [''manager'', ''director'', ''executive'']),
      (''entrepreneur'', [''entrepreneur'', ''founder'', ''startup''])]"

definition classify_by_spec :: "string \<Rightarrow> string" where
  "classify_by_spec role_description =
     (let normalized = lower role_description
      in if 0 < max_count role_terms normalized then
           (case find (\<lambda>entry. category_count normalized entry = max_count role_terms normalized)
                   role_terms of
              Some entry \<Rightarrow> fst entry | None \<Rightarrow> ''general'')
         else
           (case find (\<lambda>entry. any_in (snd entry) normalized) fallback_terms of
              Some entry \<Rightarrow> fst entry | None \<Rightarrow> ''general''))"

text \<open>The section resolver in the words of the specification. A title is valid when it
  is not empty and longer than 3 characters. \<open>kept_from\<close> scans the titles of the
  candidates once, in order, from the index \<open>i\<close>, and keeps the index of a candidate
  when its title is valid and differs from every title kept before; \<open>section_id_of\<close>
  is the identifier of the candidate with the 0-based index \<open>i\<close>.\<close>

definition valid_title :: "string \<Rightarrow> bool" where
  "valid_title title = (title \<noteq> [] \<and> 3 < length title)"

fun kept_from :: "nat \<Rightarrow> string list \<Rightarrow> string set \<Rightarrow> nat list" where
  "kept_from i [] kept_titles = []"
| "kept_from i (title # titles) kept_titles =
     (if valid_title title \<and> title \<notin> kept_titles
      then i # kept_from (i + 1) titles (insert title kept_titles)
      else kept_from (i + 1) titles kept_titles)"

definition kept_indices :: "candidate_section list \<Rightarrow> nat list" where
  "kept_indices secs = kept_from 0 (map section_title secs) {}"

definition section_id_of :: "string \<Rightarrow> nat \<Rightarrow> string" where
  "section_id_of document_filename i = document_filename @ ''_section_'' @ str_nat (i + 1)"




section \<open>Example inputs\<close>


definition overview_page :: page where
  "overview_page =
     \<lparr>pg_number = 1,
      pg_text = ''FINANCIAL OVERVIEW\<newline>The quarterly revenue grew by 15%.'',
      pg_char_count = 53\<rparr>"

text \<open>Four candidates: the third repeats the title of the first, the title of the
  second is too short.\<close>

definition example_candidates :: "candidate_section list" where
  "example_candidates =
     [\<lparr>section_title = ''Intro text'', page_number = 1, content = ''first'', detection_method = ''header''\<rparr>,
      \<lparr>section_title = ''abc'', page_number = 1, content = ''second'', detection_method = ''paragraph''\<rparr>,
      \<lparr>section_title = ''Intro text'', page_number = 2, content = ''third'', detection_method = ''paragraph''\<rparr>,
      \<lparr>section_title = ''Summary'', page_number = 2, content = ''fourth'', detection_method = ''list''\<rparr>]"



section \<open>Relevance and alignment scores\<close>














section \<open>Content gathered after a header\<close>

text \<open>
  Claim C3 says that blank lines are skipped while the content after a header is
  gathered: they do not end the gathering and they are not added, so that the content is
  the single-space join of the non-empty stripped lines. In
  \<open>_extract_content_after_header\<close> a blank line does not end the gathering, but the
  loop appends its stripped form, the empty string, to \<open>content_lines\<close>; the list
  detector's \<open>_gather_list_content\<close> leaves blank lines out with \<open>continue\<close>. On the
  page \<open>FINANCIAL OVERVIEW / foo / (blank) / bar\<close> the gathered lines are \<open>foo\<close>, the
  empty string and \<open>bar\<close>, and the content is \<open>foo  bar\<close> with two spaces, where the
  join of the non-empty lines is \<open>foo bar\<close>. After two blank lines and a further heading
  the content is a single space, and the header section is created with it.
\<close>

theorem header_content_keeps_blank_lines:
  "content_loop ''FINANCIAL OVERVIEW''
      (split_lines ''FINANCIAL OVERVIEW\<newline>foo\<newline>\<newline>bar'') False []
     = [''foo'', '''', ''bar'']
   \<and> extract_content_after_header ''FINANCIAL OVERVIEW\<newline>foo\<newline>\<newline>bar''
        ''FINANCIAL OVERVIEW'' = ''foo  bar''
   \<and> join '' '' (filter (\<lambda>l. l \<noteq> []) [''foo'', '''', ''bar'']) = ''foo bar''
   \<and> create_header_section ''FINANCIAL OVERVIEW''
        ''FINANCIAL OVERVIEW\<newline>\<newline>\<newline>NEXT HEADING\<newline>bar'' 1
     = Some \<lparr>section_title = ''FINANCIAL OVERVIEW'', page_number = 1, content = '' '',
             detection_method = ''header''\<rparr>"
  by code_simp

section \<open>Failure of the text extraction\<close>

lemma extract_pages_fail:
  "extract_pages n (map Inr ps @ Inl e # qs) ft pc = Inl e"
  by (induction ps arbitrary: n ft pc) simp_all

text \<open>
  Claim C8. When the text extraction fails, that is when opening the file raises or
  \<open>get_text()\<close> raises on a page after any number of pages that were read, then
  \<open>analyze_document\<close> returns a value and does not raise: the degraded analysis whose
  pages and sections are empty lists, whose full text is the empty string, and whose
  metadata has the file name and the key \<open>error\<close> with the description of the failure.
\<close>

theorem analyze_document_extraction_failure:
  assumes "fitz_open file_path = Inl e
           \<or> (\<exists>pages_before pages_after.
                 fitz_open file_path = Inr (map Inr pages_before @ Inl e # pages_after))"
  shows "analyze_document fitz_open now file_path
           = \<lparr>da_metadata = ErrorMetadata (path_name file_path) e,
              da_full_text = [], da_pages = [], da_sections = []\<rparr>
         \<and> error (da_metadata (analyze_document fitz_open now file_path)) = e
         \<and> da_pages (analyze_document fitz_open now file_path) = []
         \<and> da_sections (analyze_document fitz_open now file_path) = []
         \<and> da_full_text (analyze_document fitz_open now file_path) = []"
  using assms
  by (auto simp: analyze_document_def create_error_response_def extract_pdf_content_def
      extract_pages_fail)

theorem analyze_document_extraction_failure_witness:
  "analyze_document (\<lambda>p. Inl ''cannot open file'') ''2025-01-01T00:00:00'' ''input/report.pdf''
     = \<lparr>da_metadata = ErrorMetadata ''report.pdf'' ''cannot open file'',
        da_full_text = [], da_pages = [], da_sections = []\<rparr>
   \<and> da_sections (analyze_document (\<lambda>p. Inr [Inr ''first page'', Inl ''damaged page'', Inr ''x''])
        ''2025-01-01T00:00:00'' ''input/report.pdf'') = []"
proof -
  have n: "path_name ''input/report.pdf'' = ''report.pdf''" by code_simp
  have "[Inr ''first page'', Inl ''damaged page'', Inr ''x'']
          = map Inr [''first page''] @ Inl ''damaged page'' # [Inr ''x'' :: string + string]" by simp
  then have b: "\<exists>pages_before pages_after.
      [Inr ''first page'', Inl ''damaged page'', Inr ''x'' :: string + string]
        = map Inr pages_before @ Inl ''damaged page'' # pages_after"
    by blast
  show ?thesis
    using analyze_document_extraction_failure[of "\<lambda>p. Inl ''cannot open file''"
        "''input/report.pdf''" "''cannot open file''" "''2025-01-01T00:00:00''"]
      analyze_document_extraction_failure[of
        "\<lambda>p. Inr [Inr ''first page'', Inl ''damaged page'', Inr ''x'']"
        "''input/report.pdf''" "''damaged page''" "''2025-01-01T00:00:00''"]
      b
    by (simp add: n)
qed

section \<open>Insights and key concepts do not read the title\<close>





section \<open>Confidence of the resolved sections\<close>

lemma get_method_score_values:
  "get_method_score ''header'' = 0.3"
  "get_method_score ''paragraph'' = 0.2"
  "get_method_score ''list'' = 0.1"
  by (simp_all add: get_method_score_def)

lemma get_content_quality_score_range:
  "0 \<le> get_content_quality_score c t" "get_content_quality_score c t \<le> 0.2"
  by (simp_all add: get_content_quality_score_def Let_def)

lemma calculate_confidence_known_method:
  assumes "detection_method s \<in> {''header'', ''paragraph'', ''list''}"
  shows "0.6 \<le> calculate_confidence s \<and> calculate_confidence s \<le> 1"
proof -
  have "0.1 \<le> get_method_score (detection_method s)"
    using assms by (auto simp: get_method_score_values)
  moreover have "0 \<le> get_content_quality_score (content s) (section_title s)"
    by (rule get_content_quality_score_range)
  ultimately show ?thesis
    by (simp add: calculate_confidence_def Let_def get_base_confidence_score_def)
qed

lemma confidence_of_add_section_metadata:
  "confidence_score (add_section_metadata fname i s) = calculate_confidence s"
  by (simp add: add_section_metadata_def candidate_section.defs)

lemma process_loop_members:
  "u \<in> set (process_loop fname i secs acc seen) \<Longrightarrow>
     u \<in> set acc \<or> (\<exists>j s. s \<in> set secs \<and> u = add_section_metadata fname j s)"
proof (induction secs arbitrary: i acc seen)
  case Nil
  then show ?case by simp
next
  case (Cons s secs)
  show ?case
  proof (cases "is_valid_section s seen")
    case True
    with Cons.prems have "u \<in> set (process_loop fname (i + 1) secs
        (acc @ [add_section_metadata fname i s]) (insert (section_title s) seen))" by simp
    from Cons.IH[OF this] show ?thesis by auto
  next
    case False
    with Cons.prems have "u \<in> set (process_loop fname (i + 1) secs acc seen)" by simp
    from Cons.IH[OF this] show ?thesis by auto
  qed
qed

lemma process_detected_sections_members:
  assumes "u \<in> set (process_detected_sections secs fname)"
  shows "\<exists>j s. s \<in> set secs \<and> u = add_section_metadata fname j s"
proof -
  from assms have "u \<in> set (process_loop fname 0 secs [] {})"
    unfolding process_detected_sections_def by (rule in_set_takeD)
  from process_loop_members[OF this] show ?thesis by simp
qed

lemma header_lines_loop_method:
  "s \<in> set (header_lines_loop lines patterns page_text page_num acc) \<Longrightarrow>
     s \<in> set acc \<or> detection_method s = ''header''"
proof (induction lines arbitrary: acc)
  case Nil
  then show ?case by simp
next
  case (Cons l lines)
  from Cons.prems show ?case
    by (auto simp: Let_def create_header_section_def
        split: if_splits option.splits dest!: Cons.IH)
qed

lemma detect_by_headers_method:
  "s \<in> set (detect_by_headers full_text pages) \<Longrightarrow> detection_method s = ''header''"
  by (auto simp: detect_by_headers_def find_headers_in_page_def dest: header_lines_loop_method)

lemma detect_by_paragraphs_method:
  "s \<in> set (detect_by_paragraphs full_text pages) \<Longrightarrow> detection_method s = ''paragraph''"
  by (auto simp: detect_by_paragraphs_def extract_paragraph_sections_def Let_def
      create_paragraph_section_def)

lemma detect_by_lines_method:
  "s \<in> set (detect_by_lines full_text pages) \<Longrightarrow> detection_method s = ''list''"
  by (auto simp: detect_by_lines_def extract_list_sections_def Let_def
      create_list_section_def split: if_splits option.splits)

lemma detected_candidates_method:
  assumes "s \<in> set (detect_by_headers full_text pages @ detect_by_paragraphs full_text pages
                      @ detect_by_lines full_text pages)"
  shows "detection_method s \<in> {''header'', ''paragraph'', ''list''}"
  using assms detect_by_headers_method detect_by_paragraphs_method detect_by_lines_method
  by auto

lemma resolver_confidence_known_methods:
  assumes "\<forall>s \<in> set secs. detection_method s \<in> {''header'', ''paragraph'', ''list''}"
    and "u \<in> set (process_detected_sections secs fname)"
  shows "0.6 \<le> confidence_score u \<and> confidence_score u \<le> 1"
proof -
  from assms(2) obtain j s where s: "s \<in> set secs" and u: "u = add_section_metadata fname j s"
    by (blast dest: process_detected_sections_members)
  from assms(1) s have "detection_method s \<in> {''header'', ''paragraph'', ''list''}"
    by blast
  then have "0.6 \<le> calculate_confidence s \<and> calculate_confidence s \<le> 1"
    by (rule calculate_confidence_known_method)
  with u show ?thesis by (simp add: confidence_of_add_section_metadata)
qed

text \<open>
  Claim C10. Every section that the section resolver outputs for a document has a
  confidence score between 0.6 and 1: the three detectors create candidates whose
  detection method is \<open>header\<close>, \<open>paragraph\<close> or \<open>list\<close>, so the base score 0.5 gets a
  method weight of 0.1 at least, the quality bonus is not negative, and the sum is
  clamped at 1. The same holds for the resolver on any list of candidates whose detection
  methods are among these three.
\<close>

theorem resolver_confidence_range:
  "(\<forall>u \<in> set (detect_sections full_text fname pages).
       0.6 \<le> confidence_score u \<and> confidence_score u \<le> 1)
   \<and> ((\<forall>s \<in> set secs. detection_method s \<in> {''header'', ''paragraph'', ''list''}) \<longrightarrow>
        (\<forall>u \<in> set (process_detected_sections secs fname).
            0.6 \<le> confidence_score u \<and> confidence_score u \<le> 1))"
proof (intro conjI ballI impI)
  fix u
  assume "u \<in> set (detect_sections full_text fname pages)"
  then have "u \<in> set (process_detected_sections
      (detect_by_headers full_text pages @ detect_by_paragraphs full_text pages
         @ detect_by_lines full_text pages) fname)"
    by (simp add: detect_sections_def)
  moreover have "\<forall>s \<in> set (detect_by_headers full_text pages @ detect_by_paragraphs full_text pages
         @ detect_by_lines full_text pages). detection_method s \<in> {''header'', ''paragraph'', ''list''}"
    using detected_candidates_method by blast
  ultimately have r: "0.6 \<le> confidence_score u \<and> confidence_score u \<le> 1"
    using resolver_confidence_known_methods by blast
  from r show "0.6 \<le> confidence_score u" by simp
  from r show "confidence_score u \<le> 1" by simp
next
  fix u
  assume a: "\<forall>s \<in> set secs. detection_method s \<in> {''header'', ''paragraph'', ''list''}"
    and b: "u \<in> set (process_detected_sections secs fname)"
  from resolver_confidence_known_methods[OF a b]
  show "0.6 \<le> confidence_score u" and "confidence_score u \<le> 1" by simp_all
qed

lemma overview_page_confidences:
  "map confidence_score (detect_sections [] ''doc.pdf'' [overview_page]) = [9 / 10, 4 / 5]"
  by code_simp

theorem resolver_confidence_range_witness:
  "length (detect_sections [] ''doc.pdf'' [overview_page]) = 2
   \<and> 0.6 \<le> confidence_score (detect_sections [] ''doc.pdf'' [overview_page] ! 0)
   \<and> confidence_score (detect_sections [] ''doc.pdf'' [overview_page] ! 0) \<le> 1
   \<and> 0.6 \<le> confidence_score (detect_sections [] ''doc.pdf'' [overview_page] ! 1)
   \<and> confidence_score (detect_sections [] ''doc.pdf'' [overview_page] ! 1) \<le> 1"
proof -
  have "length (map confidence_score (detect_sections [] ''doc.pdf'' [overview_page])) = 2"
    unfolding overview_page_confidences by simp
  then have len: "length (detect_sections [] ''doc.pdf'' [overview_page]) = 2" by simp
  then have m: "detect_sections [] ''doc.pdf'' [overview_page] ! 0
                  \<in> set (detect_sections [] ''doc.pdf'' [overview_page])"
               "detect_sections [] ''doc.pdf'' [overview_page] ! 1
                  \<in> set (detect_sections [] ''doc.pdf'' [overview_page])"
    by simp_all
  show ?thesis
    using resolver_confidence_range[of "[]" "''doc.pdf''" "[overview_page]"] len m by blast
qed

section \<open>Role classifier\<close>

lemma starts_with_iff: "starts_with s p \<longleftrightarrow> (\<exists>q. s = p @ q)"
  by (induction s p rule: starts_with.induct) auto

lemma str_contains_iff: "str_contains s k \<longleftrightarrow> (\<exists>p q. s = p @ k @ q)"
proof (induction s)
  case Nil
  then show ?case by auto
next
  case (Cons c cs)
  show ?case
  proof
    assume "str_contains (c # cs) k"
    then consider "starts_with (c # cs) k" | "str_contains cs k" by auto
    then show "\<exists>p q. c # cs = p @ k @ q"
    proof cases
      case 1
      then obtain q where "c # cs = k @ q" by (auto simp: starts_with_iff)
      then have "c # cs = [] @ k @ q" by simp
      then show ?thesis by blast
    next
      case 2
      with Cons.IH obtain p q where "cs = p @ k @ q" by blast
      then have "c # cs = (c # p) @ k @ q" by simp
      then show ?thesis by blast
    qed
  next
    assume "\<exists>p q. c # cs = p @ k @ q"
    then obtain p q where h: "c # cs = p @ k @ q" by blast
    show "str_contains (c # cs) k"
    proof (cases p)
      case Nil
      with h have "starts_with (c # cs) k" by (auto simp: starts_with_iff)
      then show ?thesis by simp
    next
      case (Cons d p')
      with h have "cs = p' @ k @ q" by simp
      with Cons.IH have "str_contains cs k" by blast
      then show ?thesis by simp
    qed
  qed
qed

lemma score_loop_filter:
  "score_loop table normalized scores =
     scores @ filter (\<lambda>kv. 0 < snd kv)
                (map (\<lambda>entry. (fst entry, category_count normalized entry)) table)"
  by (induction table normalized scores rule: score_loop.induct)
     (simp_all add: Let_def category_count_def)

lemma max_key_loop_first_max:
  "\<exists>before x after. best # rest = before @ x # after \<and> max_key_loop best rest = fst x
      \<and> (\<forall>p \<in> set before. snd p < snd x) \<and> (\<forall>p \<in> set after. snd p \<le> snd x)"
proof (induction rest arbitrary: best)
  case Nil
  have "[best] = [] @ best # [] \<and> max_key_loop best [] = fst best
        \<and> (\<forall>p \<in> set []. snd p < snd best) \<and> (\<forall>p \<in> set []. snd p \<le> snd best)" by simp
  then show ?case by blast
next
  case (Cons kv rest)
  show ?case
  proof (cases "snd best < snd kv")
    case True
    from Cons.IH[of kv] obtain b x a where h: "kv # rest = b @ x # a"
      "max_key_loop kv rest = fst x" "\<forall>p \<in> set b. snd p < snd x" "\<forall>p \<in> set a. snd p \<le> snd x"
      by blast
    have "kv \<in> set (b @ x # a)" using h(1) by (metis list.set_intros(1))
    then have "snd kv \<le> snd x" using h(3,4) by (auto intro: less_imp_le)
    with True have bx: "snd best < snd x" by simp
    have e: "best # kv # rest = (best # b) @ x # a" using h(1) by simp
    have m: "max_key_loop best (kv # rest) = fst x" using True h(2) by simp
    have "\<forall>p \<in> set (best # b). snd p < snd x" using bx h(3) by simp
    with e m h(4) show ?thesis by blast
  next
    case False
    from Cons.IH[of best] obtain b x a where h: "best # rest = b @ x # a"
      "max_key_loop best rest = fst x" "\<forall>p \<in> set b. snd p < snd x" "\<forall>p \<in> set a. snd p \<le> snd x"
      by blast
    have m: "max_key_loop best (kv # rest) = fst x" using False h(2) by simp
    show ?thesis
    proof (cases b)
      case Nil
      with h(1) have xb: "x = best" "a = rest" by simp_all
      then have e: "best # kv # rest = [] @ x # (kv # a)" by simp
      have "\<forall>p \<in> set (kv # a). snd p \<le> snd x" using h(4) False xb by auto
      moreover have "\<forall>p \<in> set ([] :: ('a \<times> nat) list). snd p < snd x" by simp
      ultimately show ?thesis using e m by blast
    next
      case (Cons b0 b')
      with h(1) have bb: "b0 = best" "rest = b' @ x # a" by simp_all
      then have e: "best # kv # rest = (best # kv # b') @ x # a" by simp
      have "snd best < snd x" using h(3) Cons bb by simp
      with False have "snd kv < snd x" by simp
      then have "\<forall>p \<in> set (best # kv # b'). snd p < snd x"
        using h(3) Cons bb by auto
      with e m h(4) show ?thesis by blast
    qed
  qed
qed

lemma filter_decomposition:
  "filter P xs = b @ x # a \<Longrightarrow>
     \<exists>b' a'. xs = b' @ x # a' \<and> filter P b' = b \<and> filter P a' = a \<and> P x"
proof (induction xs arbitrary: b)
  case Nil
  then show ?case by simp
next
  case (Cons y ys)
  show ?case
  proof (cases "P y")
    case False
    with Cons.prems have "filter P ys = b @ x # a" by simp
    from Cons.IH[OF this] obtain b' a' where
      "ys = b' @ x # a'" "filter P b' = b" "filter P a' = a" "P x" by blast
    with False have "y # ys = (y # b') @ x # a' \<and> filter P (y # b') = b \<and> filter P a' = a \<and> P x"
      by simp
    then show ?thesis by blast
  next
    case True
    with Cons.prems have f: "y # filter P ys = b @ x # a" by simp
    show ?thesis
    proof (cases b)
      case Nil
      with f have "y = x" "filter P ys = a" by simp_all
      with True Nil have "y # ys = [] @ x # ys \<and> filter P [] = b \<and> filter P ys = a \<and> P x"
        by simp
      then show ?thesis by blast
    next
      case (Cons b0 b1)
      with f have "y = b0" "filter P ys = b1 @ x # a" by simp_all
      from Cons.IH[OF this(2)] obtain b' a' where
        "ys = b' @ x # a'" "filter P b' = b1" "filter P a' = a" "P x" by blast
      with True Cons \<open>y = b0\<close>
      have "y # ys = (y # b') @ x # a' \<and> filter P (y # b') = b \<and> filter P a' = a \<and> P x"
        by simp
      then show ?thesis by blast
    qed
  qed
qed

lemma first_max_in_table:
  assumes "filter (\<lambda>kv. 0 < snd kv) xs = kv # rest"
  shows "\<exists>before x after. xs = before @ x # after \<and> max_key_loop kv rest = fst x
           \<and> 0 < snd x
           \<and> (\<forall>p \<in> set before. snd p < snd x) \<and> (\<forall>p \<in> set after. snd p \<le> snd x)"
proof -
  from max_key_loop_first_max[of kv rest] obtain b x a where h: "kv # rest = b @ x # a"
      "max_key_loop kv rest = fst x" "\<forall>p \<in> set b. snd p < snd x" "\<forall>p \<in> set a. snd p \<le> snd x"
    by blast
  from assms h(1) have "filter (\<lambda>kv. 0 < snd kv) xs = b @ x # a" by simp
  from filter_decomposition[OF this] obtain b' a' where d: "xs = b' @ x # a'"
      "filter (\<lambda>kv. 0 < snd kv) b' = b" "filter (\<lambda>kv. 0 < snd kv) a' = a" "0 < snd x"
    by blast
  have "\<forall>p \<in> set b'. snd p < snd x"
  proof
    fix p assume p: "p \<in> set b'"
    show "snd p < snd x"
    proof (cases "0 < snd p")
      case True
      with p d(2) have "p \<in> set b" by auto
      with h(3) show ?thesis by blast
    next
      case False
      with d(4) show ?thesis by simp
    qed
  qed
  moreover have "\<forall>p \<in> set a'. snd p \<le> snd x"
  proof
    fix p assume p: "p \<in> set a'"
    show "snd p \<le> snd x"
    proof (cases "0 < snd p")
      case True
      with p d(3) have "p \<in> set a" by auto
      with h(4) show ?thesis by blast
    next
      case False
      then show ?thesis by simp
    qed
  qed
  ultimately show ?thesis using d(1,4) h(2) by blast
qed

lemma find_first_max:
  fixes f :: "'a \<Rightarrow> nat"
  assumes "xs = before @ x # after" "\<forall>p \<in> set before. f p < f x" "\<forall>p \<in> set after. f p \<le> f x"
  shows "Max (set (map f xs)) = f x" and "find (\<lambda>p. f p = f x) xs = Some x"
proof -
  show "Max (set (map f xs)) = f x"
  proof (rule Max_eqI)
    show "finite (set (map f xs))" by simp
    show "f x \<in> set (map f xs)" using assms(1) by simp
    fix y assume "y \<in> set (map f xs)"
    then obtain p where "p \<in> set xs" "y = f p" by auto
    with assms show "y \<le> f x" by (auto intro: less_imp_le)
  qed
  have "find (\<lambda>p. f p = f x) before = None" using assms(2) by (auto simp: find_None_iff)
  then show "find (\<lambda>p. f p = f x) xs = Some x"
    using assms(1) by (induction before arbitrary: xs) (auto split: if_splits)
qed

lemma scoring_first_max:
  assumes "score_loop table normalized [] = kv # rest"
  shows "0 < max_count table normalized
         \<and> (\<exists>entry. find (\<lambda>entry. category_count normalized entry = max_count table normalized) table
                       = Some entry \<and> max_key_loop kv rest = fst entry)"
proof -
  let ?g = "\<lambda>entry. (fst entry, category_count normalized entry)"
  from assms have "filter (\<lambda>kv. 0 < snd kv) (map ?g table) = kv # rest"
    by (simp add: score_loop_filter)
  from first_max_in_table[OF this] obtain before x after where h:
    "map ?g table = before @ x # after" "max_key_loop kv rest = fst x" "0 < snd x"
    "\<forall>p \<in> set before. snd p < snd x" "\<forall>p \<in> set after. snd p \<le> snd x"
    by blast
  from h(1) obtain tb e ta where t: "table = tb @ e # ta" "map ?g tb = before" "?g e = x"
    "map ?g ta = after"
    by (auto simp: map_eq_append_conv map_eq_Cons_conv)
  have lt: "\<forall>p \<in> set tb. category_count normalized p < category_count normalized e"
    using h(4) t(2,3) by auto
  have le: "\<forall>p \<in> set ta. category_count normalized p \<le> category_count normalized e"
    using h(5) t(3,4) by auto
  from find_first_max[OF t(1) lt le]
  have m: "max_count table normalized = category_count normalized e"
    and f: "find (\<lambda>p. category_count normalized p = category_count normalized e) table = Some e"
    by (simp_all add: max_count_def)
  have "0 < category_count normalized e" using h(3) t(3) by auto
  moreover have "max_key_loop kv rest = fst e" using h(2) t(3) by auto
  ultimately show ?thesis using m f by simp
qed

lemma scoring_all_zero:
  assumes "score_loop table normalized [] = []" "table \<noteq> []"
  shows "max_count table normalized = 0"
proof -
  from assms(1) have "filter (\<lambda>kv. 0 < snd kv)
      (map (\<lambda>entry. (fst entry, category_count normalized entry)) table) = []"
    by (simp add: score_loop_filter)
  then have z: "\<forall>e \<in> set table. category_count normalized e = 0"
    by (auto simp: filter_empty_conv)
  have "Max (set (map (category_count normalized) table)) = 0"
  proof (rule Max_eqI)
    show "finite (set (map (category_count normalized) table))" by simp
    show "0 \<in> set (map (category_count normalized) table)"
      using z assms(2) by (cases table) auto
    fix y assume "y \<in> set (map (category_count normalized) table)"
    with z show "y \<le> 0" by auto
  qed
  then show ?thesis by (simp add: max_count_def)
qed

lemma classify_user_role_by_spec: "classify_user_role role_description = classify_by_spec role_description"
proof (cases "score_loop role_terms (lower role_description) []")
  case Nil
  have "role_terms \<noteq> []" by (simp add: role_terms_def)
  from scoring_all_zero[OF Nil this] have "max_count role_terms (lower role_description) = 0" .
  with Nil show ?thesis
    by (simp add: classify_user_role_def classify_by_spec_def Let_def fallback_terms_def)
next
  case (Cons kv rest)
  from scoring_first_max[OF Cons] Cons show ?thesis
    by (auto simp: classify_user_role_def classify_by_spec_def Let_def)
qed

lemma scenario_C:
  "score_loop role_terms (lower ''I am a middle manager overseeing a product team'') []
     = [(''manager'', 2)]"
  "max_count role_terms (lower ''I am a middle manager overseeing a product team'') = 2"
  "classify_user_role ''I am a middle manager overseeing a product team'' = ''manager''"
  by code_simp+

text \<open>
  Claim C6. For every role description the role classifier counts, for each category, the
  keywords that occur in the lower-cased description as substrings. When some count is
  positive it returns the first category in declared order (researcher, student, analyst,
  teacher, manager, entrepreneur) whose count is the maximal one. When every count is 0
  it returns the first category in that order one of whose fallback keywords occurs in
  the description, and \<open>general\<close> when there is none. For
  \<open>I am a middle manager overseeing a product team\<close> the positive scores are those of
  \<open>manager\<close>, with count 2, so the result \<open>manager\<close> comes from the scoring and
  not from the fallback.
\<close>

theorem role_classifier_by_counts:
  "(let normalized = lower role_description;
        top = max_count role_terms normalized
    in (0 < top \<longrightarrow>
          (\<exists>entry. find (\<lambda>entry. category_count normalized entry = top) role_terms = Some entry
                   \<and> classify_user_role role_description = fst entry))
       \<and> (top = 0 \<longrightarrow>
            classify_user_role role_description
              = (case find (\<lambda>entry. any_in (snd entry) normalized) fallback_terms of
                   Some entry \<Rightarrow> fst entry | None \<Rightarrow> ''general'')))
   \<and> map fst role_terms
        = [''researcher'', ''student'', ''analyst'', ''teacher'', ''manager'', ''entrepreneur'']
   \<and> map fst fallback_terms = map fst role_terms
   \<and> score_loop role_terms (lower ''I am a middle manager overseeing a product team'') []
        = [(''manager'', 2)]
   \<and> classify_user_role ''I am a middle manager overseeing a product team'' = ''manager''"
proof -
  have names: "map fst role_terms
        = [''researcher'', ''student'', ''analyst'', ''teacher'', ''manager'', ''entrepreneur'']"
    "map fst fallback_terms = map fst role_terms"
    by (simp_all add: role_terms_def fallback_terms_def)
  have "classify_user_role role_description = classify_by_spec role_description"
    by (rule classify_user_role_by_spec)
  moreover have "0 < max_count role_terms (lower role_description) \<Longrightarrow>
      \<exists>entry. find (\<lambda>entry. category_count (lower role_description) entry
                     = max_count role_terms (lower role_description)) role_terms = Some entry
              \<and> classify_user_role role_description = fst entry"
  proof -
    assume pos: "0 < max_count role_terms (lower role_description)"
    show ?thesis
    proof (cases "score_loop role_terms (lower role_description) []")
      case Nil
      have "role_terms \<noteq> []" by (simp add: role_terms_def)
      from scoring_all_zero[OF Nil this] pos show ?thesis by simp
    next
      case (Cons kv rest)
      from scoring_first_max[OF Cons] Cons show ?thesis
        by (auto simp: classify_user_role_def Let_def)
    qed
  qed
  ultimately show ?thesis
    unfolding Let_def using names scenario_C(1,3)
    by (auto simp: classify_by_spec_def Let_def)
qed

lemma role_witness_values:
  "max_count role_terms (lower ''I study'') = 1"
  "map (category_count (lower ''I study'')) role_terms = [1, 1, 0, 0, 0, 0]"
  "find (\<lambda>entry. category_count (lower ''I study'') entry = 1) role_terms = Some (role_terms ! 0)"
  "max_count role_terms (lower ''PhD candidate'') = 0"
  "find (\<lambda>entry. any_in (snd entry) (lower ''PhD candidate'')) fallback_terms
     = Some (fallback_terms ! 0)"
  "max_count role_terms (lower ''Gardener'') = 0"
  "find (\<lambda>entry. any_in (snd entry) (lower ''Gardener'')) fallback_terms = None"
  by code_simp+

lemma first_category_names:
  "fst (role_terms ! 0) = ''researcher''"
  "fst (fallback_terms ! 0) = ''researcher''"
  by (simp_all add: role_terms_def fallback_terms_def)

theorem role_classifier_by_counts_witness:
  "classify_user_role ''I study'' = ''researcher''
   \<and> classify_user_role ''PhD candidate'' = ''researcher''
   \<and> classify_user_role ''Gardener'' = ''general''"
  using role_classifier_by_counts[of "''I study''"]
    role_classifier_by_counts[of "''PhD candidate''"]
    role_classifier_by_counts[of "''Gardener''"]
  unfolding Let_def role_witness_values by (simp add: first_category_names)

section \<open>Section resolver: kept candidates and identifiers\<close>

lemma kept_from_bounds:
  "j \<in> set (kept_from i titles seen) \<Longrightarrow> i \<le> j \<and> j < i + length titles"
proof (induction titles arbitrary: i seen)
  case Nil
  then show ?case by simp
next
  case (Cons t titles)
  from Cons.prems show ?case
    by (auto split: if_splits dest!: Cons.IH)
qed

lemma kept_from_sorted: "sorted_wrt (<) (kept_from i titles seen)"
proof (induction titles arbitrary: i seen)
  case Nil
  then show ?case by simp
next
  case (Cons t titles)
  have "\<forall>j \<in> set (kept_from (i + 1) titles (insert t seen)). i < j"
    using kept_from_bounds by fastforce
  with Cons.IH show ?case by simp
qed

lemma kept_from_first_occurrence:
  "i + k \<in> set (kept_from i titles seen) \<longleftrightarrow>
     k < length titles \<and> valid_title (titles ! k) \<and> titles ! k \<notin> seen
       \<and> titles ! k \<notin> set (take k titles)"
proof (induction titles arbitrary: i k seen)
  case Nil
  then show ?case by simp
next
  case (Cons t titles)
  show ?case
  proof (cases k)
    case 0
    have "i \<notin> set (kept_from (i + 1) titles s)" for s
      using kept_from_bounds[of i "i + 1" titles s] by auto
    with 0 show ?thesis by auto
  next
    case (Suc k')
    have e: "i + k = (i + 1) + k'" using Suc by simp
    have ne: "i + 1 + k' \<noteq> i" by simp
    show ?thesis
      unfolding e using Cons.IH[of "i + 1" k'] Suc ne
      by (auto simp del: add_Suc_right One_nat_def)
  qed
qed

lemma process_loop_kept:
  "process_loop fname i secs acc seen =
     acc @ map (\<lambda>j. add_section_metadata fname j (secs ! (j - i)))
             (kept_from i (map section_title secs) seen)"
proof (induction secs arbitrary: i acc seen)
  case Nil
  then show ?case by simp
next
  case (Cons s secs)
  have shift: "map (\<lambda>j. add_section_metadata fname j ((s # secs) ! (j - i)))
                 (kept_from (i + 1) (map section_title secs) seen')
             = map (\<lambda>j. add_section_metadata fname j (secs ! (j - (i + 1))))
                 (kept_from (i + 1) (map section_title secs) seen')" for seen'
  proof (rule map_cong[OF refl])
    fix j assume "j \<in> set (kept_from (i + 1) (map section_title secs) seen')"
    then have "i + 1 \<le> j" using kept_from_bounds by blast
    then have "j - i = Suc (j - (i + 1))" by simp
    then show "add_section_metadata fname j ((s # secs) ! (j - i))
               = add_section_metadata fname j (secs ! (j - (i + 1)))" by simp
  qed
  show ?case
    using Cons.IH shift
    by (simp add: is_valid_section_def valid_title_def Let_def conj_commute conj_left_commute)
qed

lemma digit_char_inj:
  assumes "a < 10" "b < 10" "digit_char a = digit_char b"
  shows "a = b"
proof -
  have d: "distinct ascii_digits" "length ascii_digits = 10"
    by (simp_all add: ascii_digits_def)
  from assms d show ?thesis
    unfolding digit_char_def by (simp add: nth_eq_iff_index_eq)
qed

lemma str_nat_not_empty: "str_nat n \<noteq> []"
  by (subst str_nat.simps) simp

lemma str_nat_inj: "str_nat m = str_nat n \<Longrightarrow> m = n"
proof (induction m arbitrary: n rule: str_nat.induct)
  case (1 m)
  show ?case
  proof (cases "m < 10")
    case True
    then have sm: "str_nat m = [digit_char m]" by (subst str_nat.simps) simp
    show ?thesis
    proof (cases "n < 10")
      case n: True
      then have "str_nat n = [digit_char n]" by (subst str_nat.simps) simp
      with sm "1.prems" have "digit_char m = digit_char n" by simp
      with True n show ?thesis by (rule digit_char_inj)
    next
      case n: False
      then have "str_nat n = str_nat (n div 10) @ [digit_char (n mod 10)]"
        by (subst str_nat.simps) simp
      with sm "1.prems" have "str_nat (n div 10) = []" by simp
      with str_nat_not_empty show ?thesis by blast
    qed
  next
    case False
    then have sm: "str_nat m = str_nat (m div 10) @ [digit_char (m mod 10)]"
      by (subst str_nat.simps) simp
    show ?thesis
    proof (cases "n < 10")
      case n: True
      then have "str_nat n = [digit_char n]" by (subst str_nat.simps) simp
      with sm "1.prems" have "str_nat (m div 10) = []" by simp
      with str_nat_not_empty show ?thesis by blast
    next
      case n: False
      then have "str_nat n = str_nat (n div 10) @ [digit_char (n mod 10)]"
        by (subst str_nat.simps) simp
      with sm "1.prems" have a: "str_nat (m div 10) = str_nat (n div 10)"
        and b: "digit_char (m mod 10) = digit_char (n mod 10)" by simp_all
      from "1.IH"[OF False a] have "m div 10 = n div 10" .
      moreover have "m mod 10 = n mod 10"
        by (rule digit_char_inj[OF _ _ b]) simp_all
      ultimately show ?thesis by (metis div_mult_mod_eq)
    qed
  qed
qed

lemma section_id_of_inj: "section_id_of fname i = section_id_of fname j \<Longrightarrow> i = j"
  unfolding section_id_of_def using str_nat_inj by fastforce

lemma section_id_of_metadata:
  "section_id (add_section_metadata fname i s) = section_id_of fname i"
  "section_title (add_section_metadata fname i s) = section_title s"
  "candidate_section.truncate (add_section_metadata fname i s) = s"
  by (simp_all add: add_section_metadata_def section_id_of_def candidate_section.defs)

lemma kept_indices_props:
  "sorted_wrt (<) (kept_indices secs)"
  "distinct (kept_indices secs)"
  "set (kept_indices secs) \<subseteq> {..< length secs}"
proof -
  show s: "sorted_wrt (<) (kept_indices secs)" by (simp add: kept_indices_def kept_from_sorted)
  then show "distinct (kept_indices secs)" by (simp add: strict_sorted_iff)
  show "set (kept_indices secs) \<subseteq> {..< length secs}"
    using kept_from_bounds[of _ 0 "map section_title secs" "{}"]
    by (auto simp: kept_indices_def)
qed

lemma process_detected_sections_kept:
  "process_detected_sections secs fname =
     map (\<lambda>i. add_section_metadata fname i (secs ! i)) (take 50 (kept_indices secs))"
  by (simp add: process_detected_sections_def process_loop_kept kept_indices_def
      max_sections_def take_map)

lemma kept_first_occurrence:
  "i \<in> set (kept_indices secs) \<longleftrightarrow>
     i < length secs \<and> valid_title (section_title (secs ! i))
       \<and> section_title (secs ! i) \<notin> section_title ` set (take i secs)"
  using kept_from_first_occurrence[of 0 i "map section_title secs" "{}"]
  by (auto simp: kept_indices_def take_map)

lemma earlier_in_take:
  assumes "i < j" "j < length secs"
  shows "secs ! i \<in> set (take j secs)"
proof -
  have "take j secs ! i = secs ! i" using assms by simp
  moreover have "i < length (take j secs)" using assms by simp
  ultimately show ?thesis by (metis nth_mem)
qed

lemma kept_no_earlier_title:
  assumes "j \<in> set (kept_indices secs)" "i < j"
  shows "section_title (secs ! i) \<noteq> section_title (secs ! j)"
proof
  assume e: "section_title (secs ! i) = section_title (secs ! j)"
  from assms(1) have l: "j < length secs"
    and n: "section_title (secs ! j) \<notin> section_title ` set (take j secs)"
    using kept_first_occurrence[of j secs] by blast+
  from earlier_in_take[OF assms(2) l] have "section_title (secs ! i) \<in> section_title ` set (take j secs)"
    by (rule imageI)
  with e n show False by simp
qed

lemma kept_titles_distinct: "distinct (map (\<lambda>i. section_title (secs ! i)) (kept_indices secs))"
proof -
  have "inj_on (\<lambda>i. section_title (secs ! i)) (set (kept_indices secs))"
  proof (rule inj_onI)
    fix i j
    assume i: "i \<in> set (kept_indices secs)" and j: "j \<in> set (kept_indices secs)"
      and e: "section_title (secs ! i) = section_title (secs ! j)"
    show "i = j"
    proof (rule ccontr)
      assume "i \<noteq> j"
      then consider "i < j" | "j < i" by linarith
      then show False
      proof cases
        case 1
        from kept_no_earlier_title[OF j 1] e show False by simp
      next
        case 2
        from kept_no_earlier_title[OF i 2] e show False by simp
      qed
    qed
  qed
  with kept_indices_props(2) show ?thesis by (simp add: distinct_map)
qed

lemma kept_claim_form:
  assumes "i < length secs"
  shows "i \<in> set (kept_indices secs) \<longleftrightarrow>
           section_title (secs ! i) \<noteq> [] \<and> 3 < length (section_title (secs ! i))
           \<and> (\<forall>j<i. j \<in> set (kept_indices secs) \<longrightarrow>
                  section_title (secs ! j) \<noteq> section_title (secs ! i))"
proof
  assume k: "i \<in> set (kept_indices secs)"
  then have "valid_title (section_title (secs ! i))" by (simp add: kept_first_occurrence)
  with kept_no_earlier_title[OF k]
  show "section_title (secs ! i) \<noteq> [] \<and> 3 < length (section_title (secs ! i))
           \<and> (\<forall>j<i. j \<in> set (kept_indices secs) \<longrightarrow>
                  section_title (secs ! j) \<noteq> section_title (secs ! i))"
    by (simp add: valid_title_def)
next
  assume r: "section_title (secs ! i) \<noteq> [] \<and> 3 < length (section_title (secs ! i))
           \<and> (\<forall>j<i. j \<in> set (kept_indices secs) \<longrightarrow>
                  section_title (secs ! j) \<noteq> section_title (secs ! i))"
  then have v: "valid_title (section_title (secs ! i))" by (simp add: valid_title_def)
  have "section_title (secs ! i) \<notin> section_title ` set (take i secs)"
  proof
    assume "section_title (secs ! i) \<in> section_title ` set (take i secs)"
    then obtain j0 where j0: "j0 < i" "section_title (secs ! j0) = section_title (secs ! i)"
      using assms by (auto simp: in_set_conv_nth)
    define j where "j = (LEAST j. j < i \<and> section_title (secs ! j) = section_title (secs ! i))"
    have j: "j < i \<and> section_title (secs ! j) = section_title (secs ! i)"
      unfolding j_def by (rule LeastI[of _ j0]) (use j0 in simp)
    have least: "\<not> (k < i \<and> section_title (secs ! k) = section_title (secs ! i))" if "k < j" for k
      using that not_less_Least unfolding j_def by blast
    have "section_title (secs ! j) \<notin> section_title ` set (take j secs)"
    proof
      assume "section_title (secs ! j) \<in> section_title ` set (take j secs)"
      then obtain k where "k < j" "section_title (secs ! k) = section_title (secs ! j)"
        using j assms by (auto simp: in_set_conv_nth)
      with least[of k] j show False by simp
    qed
    with j v assms have "j \<in> set (kept_indices secs)" by (simp add: kept_first_occurrence)
    with r j show False by blast
  qed
  with v assms show "i \<in> set (kept_indices secs)" by (simp add: kept_first_occurrence)
qed

lemma resolver_titles:
  "map section_title (process_detected_sections secs fname)
     = map (\<lambda>i. section_title (secs ! i)) (take 50 (kept_indices secs))"
  by (simp add: process_detected_sections_kept section_id_of_metadata comp_def)

lemma resolver_titles_distinct: "distinct (map section_title (process_detected_sections secs fname))"
proof -
  have "distinct (take 50 (map (\<lambda>i. section_title (secs ! i)) (kept_indices secs)))"
    using kept_titles_distinct by (rule distinct_take)
  then show ?thesis by (simp add: resolver_titles take_map)
qed

text \<open>
  Claim C5. The section resolver scans the concatenated candidate list once, in order, and
  keeps the candidate at index \<open>i\<close> exactly when its title is not empty, is longer than
  3 characters and differs from the title of every candidate kept before it; its output
  is the first 50 of the kept candidates, each with its added keys. Hence no two sections
  of the output have the same title, and the output has at most 50 sections.
\<close>

theorem resolver_keeps_first_titles:
  "process_loop fname 0 secs [] {}
      = map (\<lambda>i. add_section_metadata fname i (secs ! i)) (kept_indices secs)
   \<and> process_detected_sections secs fname
      = map (\<lambda>i. add_section_metadata fname i (secs ! i)) (take 50 (kept_indices secs))
   \<and> set (kept_indices secs) \<subseteq> {..< length secs}
   \<and> (\<forall>i < length secs.
         i \<in> set (kept_indices secs) \<longleftrightarrow>
           section_title (secs ! i) \<noteq> [] \<and> 3 < length (section_title (secs ! i))
           \<and> (\<forall>j<i. j \<in> set (kept_indices secs) \<longrightarrow>
                  section_title (secs ! j) \<noteq> section_title (secs ! i)))
   \<and> distinct (map section_title (process_detected_sections secs fname))
   \<and> length (process_detected_sections secs fname) \<le> 50"
proof -
  have "process_loop fname 0 secs [] {}
      = map (\<lambda>i. add_section_metadata fname i (secs ! i)) (kept_indices secs)"
    by (simp add: process_loop_kept kept_indices_def)
  moreover have "length (process_detected_sections secs fname) \<le> 50"
    by (simp add: process_detected_sections_kept)
  ultimately show ?thesis
    using process_detected_sections_kept kept_indices_props(3) kept_claim_form
      resolver_titles_distinct by blast
qed

lemma example_kept: "kept_indices example_candidates = [0, 3]"
  by code_simp

lemma example_titles:
  "section_title (example_candidates ! 0) = ''Intro text''"
  "section_title (example_candidates ! 3) = ''Summary''"
  by (simp_all add: example_candidates_def)

theorem resolver_keeps_first_titles_witness:
  "kept_indices example_candidates = [0, 3]
   \<and> map section_title (process_detected_sections example_candidates ''doc.pdf'')
        = [''Intro text'', ''Summary'']"
proof -
  have "process_detected_sections example_candidates ''doc.pdf''
      = map (\<lambda>i. add_section_metadata ''doc.pdf'' i (example_candidates ! i))
            (take 50 (kept_indices example_candidates))"
    using resolver_keeps_first_titles[of "''doc.pdf''" example_candidates] by blast
  then show ?thesis
    by (simp add: example_kept section_id_of_metadata example_titles)
qed

text \<open>
  Claim C4. The resolver works on the candidates of the header, paragraph and list
  detectors, concatenated in this order. The section at position \<open>k\<close> of its
  output is the candidate at the index \<open>i\<close> that is \<open>k\<close>-th among the kept
  indices, and its \<open>section_id\<close> is
  the file name, \<open>_section_\<close> and the decimal numeral of \<open>i + 1\<close>, where \<open>i\<close> counts
  the candidates of the whole list before filtering. The kept indices increase strictly,
  so the numeric suffixes increase strictly in output order, skipping the numbers of the
  rejected candidates, and the identifiers are pairwise different.
\<close>

theorem section_ids_follow_candidate_index:
  "(let kept = take 50 (kept_indices secs);
        out = process_detected_sections secs document_filename
    in map section_id out = map (\<lambda>i. document_filename @ ''_section_'' @ str_nat (i + 1)) kept
       \<and> map candidate_section.truncate out = map (\<lambda>i. secs ! i) kept
       \<and> set kept \<subseteq> {..< length secs}
       \<and> sorted_wrt (<) kept
       \<and> sorted_wrt (<) (map (\<lambda>i. i + 1) kept)
       \<and> distinct (map section_id out))
   \<and> detect_sections full_text document_filename pages
       = process_detected_sections
           (detect_by_headers full_text pages @ detect_by_paragraphs full_text pages
              @ detect_by_lines full_text pages)
           document_filename"
proof -
  let ?kept = "take 50 (kept_indices secs)"
  have s: "sorted_wrt (<) ?kept"
    using kept_indices_props(1) by (rule sorted_wrt_take)
  then have s1: "sorted_wrt (<) (map (\<lambda>i. i + 1) ?kept)"
    by (simp add: sorted_wrt_map)
  have sub: "set ?kept \<subseteq> {..< length secs}"
    using kept_indices_props(3) set_take_subset by fast
  have ids: "map section_id (process_detected_sections secs document_filename)
               = map (section_id_of document_filename) ?kept"
    by (simp add: process_detected_sections_kept section_id_of_metadata comp_def)
  have "distinct ?kept" using s by (simp add: strict_sorted_iff)
  moreover have "inj_on (section_id_of document_filename) (set ?kept)"
    by (rule inj_onI) (rule section_id_of_inj)
  ultimately have d: "distinct (map (section_id_of document_filename) ?kept)"
    by (simp add: distinct_map)
  have tr: "map candidate_section.truncate (process_detected_sections secs document_filename)
              = map (\<lambda>i. secs ! i) ?kept"
    by (simp add: process_detected_sections_kept section_id_of_metadata comp_def)
  show ?thesis
    unfolding Let_def using s s1 sub ids d tr
    by (simp add: section_id_of_def detect_sections_def)
qed

lemma example_suffixes: "str_nat (Suc 0) = ''1''" "str_nat 4 = ''4''"
  by code_simp+

theorem section_ids_follow_candidate_index_witness:
  "map section_id (process_detected_sections example_candidates ''doc.pdf'')
     = [''doc.pdf_section_1'', ''doc.pdf_section_4'']"
  using section_ids_follow_candidate_index[of example_candidates "''doc.pdf''"]
  unfolding Let_def example_kept by (simp add: example_suffixes)

section \<open>Analysis aggregator\<close>

























end
